theory Spec2Isabelle
  imports Complex_Main "HOL-Library.Sublist" "HOL-Library.Product_Lexorder"
begin

section \<open>Values\<close>

text \<open>
  A string is the sequence of its Unicode code points; a code point above U+FFFF stands
  for its surrogate pair, and a value from U+D800 to U+DFFF for a surrogate on its own.
\<close>

type_synonym ustring = "nat list"

datatype json =
    JNull
  | JBool bool
  | JNum real
  | JStr ustring
  | JArr "json list"
  | JObj "(string \<times> json) list"

text \<open>
  A number computed by the search: a finite value, or what a division by zero leaves
  (\<open>0 / 0\<close> is \<open>NaN\<close>, \<open>x / 0\<close> is an infinity).
\<close>

datatype jsnum = Num real | NaN | PosInf | NegInf

definition js_div :: "real \<Rightarrow> real \<Rightarrow> jsnum" where
  "js_div a b =
     (if b \<noteq> 0 then Num (a / b)
      else if a = 0 then NaN
      else if 0 < a then PosInf else NegInf)"

fun js_add :: "jsnum \<Rightarrow> jsnum \<Rightarrow> jsnum" where
  "js_add (Num a) (Num b) = Num (a + b)"
| "js_add NaN _ = NaN"
| "js_add _ NaN = NaN"
| "js_add PosInf NegInf = NaN"
| "js_add NegInf PosInf = NaN"
| "js_add PosInf _ = PosInf"
| "js_add _ PosInf = PosInf"
| "js_add NegInf _ = NegInf"
| "js_add _ NegInf = NegInf"

text \<open>\<open>!!x\<close> for a number: neither zero nor \<open>NaN\<close>.\<close>

fun truthy :: "jsnum \<Rightarrow> bool" where
  "truthy (Num r) = (r \<noteq> 0)"
| "truthy NaN = False"
| "truthy PosInf = True"
| "truthy NegInf = True"

text \<open>\<open>x || 0\<close>, where \<open>None\<close> is \<open>undefined\<close>.\<close>

fun or_zero :: "jsnum option \<Rightarrow> jsnum" where
  "or_zero None = Num 0"
| "or_zero (Some x) = (if truthy x then x else Num 0)"

text \<open>\<open>a === b\<close> on numbers: \<open>NaN\<close> equals nothing.\<close>

definition js_eq :: "jsnum \<Rightarrow> jsnum \<Rightarrow> bool" where
  "js_eq a b = (a = b \<and> a \<noteq> NaN)"

text \<open>
  The order in which lodash's \<open>sortBy\<close> arranges numbers (ascending, \<open>NaN\<close> last), as a
  key into the lexicographic order on pairs.
\<close>

fun jrank :: "jsnum \<Rightarrow> nat \<times> real" where
  "jrank NegInf = (0, 0)"
| "jrank (Num r) = (1, r)"
| "jrank PosInf = (2, 0)"
| "jrank NaN = (3, 0)"

text \<open>\<open>a > b\<close> on numbers: false as soon as one side is \<open>NaN\<close>.\<close>

definition js_gt :: "jsnum \<Rightarrow> jsnum \<Rightarrow> bool" where
  "js_gt a b = (a \<noteq> NaN \<and> b \<noteq> NaN \<and> jrank b < jrank a)"

text \<open>
  \<open>_.max\<close>: \<open>undefined\<close> on an empty array, otherwise the first greatest element (a
  \<open>NaN\<close> is never taken).
\<close>

fun js_max_from :: "jsnum option \<Rightarrow> jsnum list \<Rightarrow> jsnum option" where
  "js_max_from computed [] = computed"
| "js_max_from None (x # xs) = js_max_from (if x = NaN then None else Some x) xs"
| "js_max_from (Some c) (x # xs) = js_max_from (if js_gt x c then Some x else Some c) xs"

definition js_max :: "jsnum list \<Rightarrow> jsnum option" where
  "js_max xs = js_max_from None xs"

fun nat_max_from :: "nat option \<Rightarrow> nat list \<Rightarrow> nat option" where
  "nat_max_from computed [] = computed"
| "nat_max_from None (x # xs) = nat_max_from (Some x) xs"
| "nat_max_from (Some c) (x # xs) = nat_max_from (if c < x then Some x else Some c) xs"

definition nat_max :: "nat list \<Rightarrow> nat option" where
  "nat_max xs = nat_max_from None xs"

section \<open>The symbols of a string\<close>

text \<open>
  lodash's \<open>_.split(s, '')\<close> and \<open>_.size(s)\<close> work on the symbols that its regular
  expression \<open>reUnicode\<close> matches one after the other: a skin-tone modifier that another
  one follows, or else a character (\<open>rsSymbol\<close>) together with what \<open>rsSeq\<close> lets follow
  it: a variation selector, a modifier, and any number of joiner sequences. The character
  classes of that expression:
\<close>

definition rsFitz :: "nat \<Rightarrow> bool" where
  "rsFitz c = (0x1F3FB \<le> c \<and> c \<le> 0x1F3FF)"

definition rsCombo :: "nat \<Rightarrow> bool" where
  "rsCombo c = ((0x300 \<le> c \<and> c \<le> 0x36F) \<or> (0xFE20 \<le> c \<and> c \<le> 0xFE2F)
                \<or> (0x20D0 \<le> c \<and> c \<le> 0x20FF))"

definition rsModifier :: "nat \<Rightarrow> bool" where
  "rsModifier c = (rsCombo c \<or> rsFitz c)"

definition rsVar :: "nat \<Rightarrow> bool" where
  "rsVar c = (c = 0xFE0E \<or> c = 0xFE0F)"

definition rsRegional :: "nat \<Rightarrow> bool" where
  "rsRegional c = (0x1F1E6 \<le> c \<and> c \<le> 0x1F1FF)"

definition rsZWJ :: "nat \<Rightarrow> bool" where
  "rsZWJ c = (c = 0x200D)"

definition rsAstral :: "nat \<Rightarrow> bool" where
  "rsAstral c = (0xD800 \<le> c \<and> c \<le> 0xDFFF)"

definition rsNonAstral :: "nat \<Rightarrow> bool" where
  "rsNonAstral c = (c < 0x10000 \<and> \<not> rsAstral c)"

text \<open>The next code point is there and of the class.\<close>

fun starts :: "(nat \<Rightarrow> bool) \<Rightarrow> nat list \<Rightarrow> bool" where
  "starts P [] = False"
| "starts P (c # cs) = P c"

text \<open>How many code points \<open>X?\<close> takes.\<close>

definition opt_len :: "(nat \<Rightarrow> bool) \<Rightarrow> nat list \<Rightarrow> nat" where
  "opt_len P cs = (if starts P cs then 1 else 0)"

text \<open>\<open>rsOptVar + reOptMod\<close>.\<close>

definition var_mod_len :: "nat list \<Rightarrow> nat" where
  "var_mod_len cs = (let v = opt_len rsVar cs in v + opt_len rsModifier (drop v cs))"

text \<open>
  What a joiner must be followed by: \<open>rsNonAstral\<close>, \<open>rsRegional\<close> (two regional
  indicators) or \<open>rsSurrPair\<close>; \<open>None\<close> where none of them matches.
\<close>

fun joinee_len :: "nat list \<Rightarrow> nat option" where
  "joinee_len [] = None"
| "joinee_len (c # cs) =
     (if rsNonAstral c then Some 1
      else if rsAstral c then None
      else if rsRegional c \<and> starts rsRegional cs then Some 2
      else Some 1)"

text \<open>\<open>rsOptJoin\<close>: joiner sequences, as long as there are any.\<close>

fun rsOptJoin_len :: "nat list \<Rightarrow> nat" where
  "rsOptJoin_len [] = 0"
| "rsOptJoin_len (z # cs) =
     (if rsZWJ z then
        (case joinee_len cs of
           None \<Rightarrow> 0
         | Some j \<Rightarrow>
             (let k = j + var_mod_len (drop j cs)
              in Suc (k + rsOptJoin_len (drop k cs))))
      else 0)"

definition rsSeq_len :: "nat list \<Rightarrow> nat" where
  "rsSeq_len cs = (let k = var_mod_len cs in k + rsOptJoin_len (drop k cs))"

text \<open>
  \<open>rsSymbol\<close>: a character of the basic plane with a combining mark if one follows, two
  regional indicators, or any other single code point.
\<close>

fun rsSymbol_len :: "nat list \<Rightarrow> nat" where
  "rsSymbol_len [] = 0"
| "rsSymbol_len (c # cs) =
     (if rsNonAstral c then Suc (opt_len rsCombo cs)
      else if rsRegional c \<and> starts rsRegional cs then 2
      else 1)"

text \<open>The length of the first match of \<open>reUnicode\<close>.\<close>

fun reUnicode_len :: "nat list \<Rightarrow> nat" where
  "reUnicode_len [] = 0"
| "reUnicode_len (c # cs) =
     (if rsFitz c \<and> starts rsFitz cs then 1
      else (let b = rsSymbol_len (c # cs) in b + rsSeq_len (drop b (c # cs))))"

text \<open>\<open>stringToArray\<close>, which \<open>_.split(s, '')\<close> returns: all matches, in order.\<close>

function stringToArray :: "ustring \<Rightarrow> ustring list" where
  "stringToArray [] = []"
| "stringToArray (c # cs) =
     take (reUnicode_len (c # cs)) (c # cs) # stringToArray (drop (reUnicode_len (c # cs)) (c # cs))"
  by pat_completeness auto
termination
proof (relation "measure length")
  show "wf (measure length)" by simp
next
  fix c :: nat and cs :: "nat list"
  have "0 < reUnicode_len (c # cs)" by (simp add: Let_def)
  then show "(drop (reUnicode_len (c # cs)) (c # cs), c # cs) \<in> measure length"
    by simp
qed

text \<open>\<open>_.size(s)\<close> and \<open>fp.size(s)\<close> on a string: the number of its symbols.\<close>

definition stringSize :: "ustring \<Rightarrow> nat" where
  "stringSize s = length (stringToArray s)"

section \<open>The helpers of \<open>./emoji\<close> and \<open>./utils\<close>\<close>

text \<open>
  Modelled from the spec: \<open>isAscii\<close> of \<open>./utils\<close>. A query is plain when it is ASCII and
  an emoji query when it contains a non-ASCII code point.
\<close>

definition isAscii :: "ustring \<Rightarrow> bool" where
  "isAscii q = list_all (\<lambda>c. c < 128) q"

text \<open>
  Modelled from the spec: the variation-selector code points, U+FE00 to U+FE0F, which
  \<open>stripVariationSelectors\<close> removes.
\<close>

definition isVariationSelector :: "nat \<Rightarrow> bool" where
  "isVariationSelector c = (0xFE00 \<le> c \<and> c \<le> 0xFE0F)"

text \<open>
  Modelled from the spec: \<open>stripVariationSelectors\<close> of \<open>./emoji\<close> strips the
  variation-selector code points from a sequence, which leaves its canonical characters.
\<close>

definition stripVariationSelectors :: "ustring \<Rightarrow> ustring" where
  "stripVariationSelectors s = filter (\<lambda>c. \<not> isVariationSelector c) s"

text \<open>
  Modelled from the spec: \<open>convertEmojiToKeywords\<close> of \<open>./emoji\<close> maps each emoji to
  its keywords through a fixed table; an emoji that the table lacks is dropped.
\<close>

definition convertEmojiToKeywords :: "(nat \<rightharpoonup> ustring list) \<Rightarrow> ustring \<Rightarrow> ustring list" where
  "convertEmojiToKeywords lib e =
     concat (map (\<lambda>c. case lib c of None \<Rightarrow> [] | Some ks \<Rightarrow> ks) e)"

text \<open>\<open>ws.join(' ')\<close>.\<close>

fun join_space :: "ustring list \<Rightarrow> ustring" where
  "join_space [] = []"
| "join_space [w] = w"
| "join_space (w # ws) = w @ 32 # join_space ws"

section \<open>The database and what lies outside the program\<close>

text \<open>
  \<open>uuidv4()\<close> draws a fresh key for each document, and \<open>tfidf\<close>, \<open>meta\<close> and \<open>emojis\<close>
  are filled under that key together. The model identifies a document with its position
  in insertion order, so the three stores are one list of rows. \<open>doc_meta\<close> is \<open>None\<close>
  when the request had no \<open>meta\<close> field.
\<close>

record document =
  doc_keywords :: ustring
  doc_meta :: "json option"
  doc_emoji :: ustring

type_synonym db = "document list"

text \<open>
  What lies outside the program is a parameter of the model: the keyword table loaded by
  \<open>loadEmojiLib\<close>; the measure that natural's \<open>TfIdf\<close> gives to the document at a
  position, from the texts of all documents and the query's keywords; the answers of
  geolib's two tests for a point that has coordinates; and whether \<open>fs.writeFileSync\<close>
  succeeds in writing a database to \<open>database.json\<close>.
\<close>

record env =
  emojiLib :: "nat \<rightharpoonup> ustring list"
  tfidf_measure :: "ustring list \<Rightarrow> ustring \<Rightarrow> nat \<Rightarrow> real"
  isPointInside :: "json \<Rightarrow> (real \<times> real) list \<Rightarrow> bool"
  isPointInCircle :: "json \<Rightarrow> real \<times> real \<Rightarrow> real \<Rightarrow> bool"
  writeFileSync :: "db \<Rightarrow> bool"

text \<open>
  How a request ends when it does not end well: the 400 of a failed validation, or an
  exception that no handler catches: of \<open>JSON.parse\<close>, of geolib reading the
  coordinates of \<open>null\<close>, of the write to disk.
\<close>

datatype error = ValidationError | SyntaxError | TypeError | WriteError

section \<open>Schemas\<close>

text \<open>The keywords of a schema, on the fields of an object.\<close>

definition prop_ok :: "(string \<times> json) list \<Rightarrow> string \<Rightarrow> (json \<Rightarrow> bool) \<Rightarrow> bool" where
  "prop_ok kvs k P = (case map_of kvs k of None \<Rightarrow> True | Some v \<Rightarrow> P v)"

definition required_ok :: "(string \<times> json) list \<Rightarrow> string list \<Rightarrow> bool" where
  "required_ok kvs ks = list_all (\<lambda>k. map_of kvs k \<noteq> None) ks"

definition no_additional :: "(string \<times> json) list \<Rightarrow> string list \<Rightarrow> bool" where
  "no_additional kvs ks = list_all (\<lambda>kv. fst kv \<in> set ks) kvs"

fun is_number :: "json \<Rightarrow> bool" where
  "is_number (JNum r) = True"
| "is_number _ = False"

fun is_string :: "json \<Rightarrow> bool" where
  "is_string (JStr s) = True"
| "is_string _ = False"

text \<open>\<open>oneOf\<close> with two branches: exactly one holds.\<close>

definition oneOf2 :: "bool \<Rightarrow> bool \<Rightarrow> bool" where
  "oneOf2 a b = ((a \<and> \<not> b) \<or> (\<not> a \<and> b))"

text \<open>\<open>documentPostSchema\<close>, from the inside out.\<close>

fun geolocation_object_ok :: "json \<Rightarrow> bool" where
  "geolocation_object_ok (JObj kvs) =
     (prop_ok kvs ''latitude'' is_number \<and> prop_ok kvs ''longitude'' is_number
      \<and> required_ok kvs [''latitude'', ''longitude'']
      \<and> no_additional kvs [''latitude'', ''longitude''])"
| "geolocation_object_ok _ = False"

definition geolocation_ok :: "json \<Rightarrow> bool" where
  "geolocation_ok g = oneOf2 (geolocation_object_ok g) (g = JNull)"

fun meta_object_ok :: "json \<Rightarrow> bool" where
  "meta_object_ok (JObj kvs) = prop_ok kvs ''geolocation'' geolocation_ok"
| "meta_object_ok _ = False"

definition meta_ok :: "json \<Rightarrow> bool" where
  "meta_ok m = oneOf2 (meta_object_ok m) (m = JNull)"

text \<open>\<open>req.body\<close> as body-parser leaves it: an object, given by its fields.\<close>

definition documentPostValidate :: "(string \<times> json) list \<Rightarrow> bool" where
  "documentPostValidate body =
     (prop_ok body ''emoji'' is_string \<and> prop_ok body ''meta'' meta_ok
      \<and> required_ok body [''emoji''])"

text \<open>\<open>searchSchema\<close>: the two shapes of a geofence.\<close>

definition geofence_circle_ok :: "(string \<times> json) list \<Rightarrow> bool" where
  "geofence_circle_ok kvs =
     (prop_ok kvs ''latitude'' is_number \<and> prop_ok kvs ''longitude'' is_number
      \<and> prop_ok kvs ''radius'' is_number
      \<and> required_ok kvs [''latitude'', ''longitude'', ''radius'']
      \<and> no_additional kvs [''latitude'', ''longitude'', ''radius''])"

definition geofence_box_ok :: "(string \<times> json) list \<Rightarrow> bool" where
  "geofence_box_ok kvs =
     (prop_ok kvs ''latitude'' is_number \<and> prop_ok kvs ''longitude'' is_number
      \<and> prop_ok kvs ''latitudeDelta'' is_number \<and> prop_ok kvs ''longitudeDelta'' is_number
      \<and> required_ok kvs [''latitude'', ''longitude'', ''latitudeDelta'', ''longitudeDelta'']
      \<and> no_additional kvs [''latitude'', ''longitude'', ''latitudeDelta'', ''longitudeDelta''])"

fun geofence_ok :: "json \<Rightarrow> bool" where
  "geofence_ok (JObj kvs) = oneOf2 (geofence_circle_ok kvs) (geofence_box_ok kvs)"
| "geofence_ok _ = False"

section \<open>POST /documents\<close>

text \<open>
  The handler answers 400 with the validation errors and returns; or it stores the
  document, writes the database to disk and answers 201. The write comes after the stores
  have changed, so where it throws the document stays in memory. A body that passed the
  schema has a string under \<open>emoji\<close>, so the last case below is never taken.
\<close>

definition post :: "env \<Rightarrow> db \<Rightarrow> (string \<times> json) list \<Rightarrow> (error + unit) \<times> db" where
  "post e s body =
     (if \<not> documentPostValidate body then (Inl ValidationError, s)
      else case map_of body ''emoji'' of
        Some (JStr emoji) \<Rightarrow>
          (let s' = s @ [\<lparr>doc_keywords = join_space (convertEmojiToKeywords (emojiLib e) emoji),
                             doc_meta = map_of body ''meta'',
                             doc_emoji = emoji\<rparr>]
           in (if writeFileSync e s' then Inr () else Inl WriteError, s'))
      | _ \<Rightarrow> (Inl ValidationError, s))"

section \<open>GET /search/:query\<close>

subsection \<open>Parameters\<close>

text \<open>
  \<open>req.query\<close>, where every parameter that was sent arrives as text. The \<open>geofence\<close>
  parameter is text that \<open>JSON.parse\<close> either turns into a value or rejects by throwing;
  a flag counts by its truthiness, \<open>None\<close> when it was not sent.
\<close>

datatype geofence_param = Absent | Unparseable | Parsed json

record params =
  p_limit :: "ustring option"
  p_geofence :: geofence_param
  p_enableFuzzySearch :: "bool option"
  p_persistOrder :: "bool option"
  p_truncateSmallMatches :: "bool option"
  p_truncateSmallScore :: "bool option"
  p_onlyKeepPerfectMatch :: "bool option"

text \<open>
  \<open>searchSchema\<close> asks for a \<open>limit\<close> of type number, and \<open>new Ajv()\<close> does not coerce: a
  \<open>limit\<close> that was sent is text and fails.
\<close>

definition searchValidate :: "params \<Rightarrow> bool" where
  "searchValidate p =
     ((case p_limit p of None \<Rightarrow> True | Some txt \<Rightarrow> is_number (JStr txt))
      \<and> (case p_geofence p of Parsed g \<Rightarrow> geofence_ok g | _ \<Rightarrow> True))"

text \<open>
  A geofence that passed the schema has one of two shapes; the one with a \<open>radius\<close> is
  the circle.
\<close>

datatype geofence = Circle real real real | Box real real real real

definition num_field :: "(string \<times> json) list \<Rightarrow> string \<Rightarrow> real option" where
  "num_field kvs k = (case map_of kvs k of Some (JNum r) \<Rightarrow> Some r | _ \<Rightarrow> None)"

fun to_geofence :: "json \<Rightarrow> geofence option" where
  "to_geofence (JObj kvs) =
     (if map_of kvs ''radius'' \<noteq> None then
        (case (num_field kvs ''latitude'', num_field kvs ''longitude'', num_field kvs ''radius'') of
           (Some la, Some lo, Some r) \<Rightarrow> Some (Circle la lo r)
         | _ \<Rightarrow> None)
      else
        (case (num_field kvs ''latitude'', num_field kvs ''longitude'',
               num_field kvs ''latitudeDelta'', num_field kvs ''longitudeDelta'') of
           (Some la, Some lo, Some dla, Some dlo) \<Rightarrow> Some (Box la lo dla dlo)
         | _ \<Rightarrow> None))"
| "to_geofence _ = None"

record options =
  limit :: real
  geofence :: "geofence option"
  enableFuzzySearch :: bool
  persistOrder :: bool
  truncateSmallMatches :: bool
  truncateSmallScore :: bool
  onlyKeepPerfectMatch :: bool

text \<open>
  \<open>_.defaults(params, {...})\<close>, for parameters that passed the schema: they have no
  \<open>limit\<close>, which therefore is 50.
\<close>

definition defaults :: "params \<Rightarrow> options" where
  "defaults p =
     \<lparr>limit = 50,
      geofence = (case p_geofence p of Parsed g \<Rightarrow> to_geofence g | _ \<Rightarrow> None),
      enableFuzzySearch = (case p_enableFuzzySearch p of Some b \<Rightarrow> b | None \<Rightarrow> False),
      persistOrder = (case p_persistOrder p of Some b \<Rightarrow> b | None \<Rightarrow> False),
      truncateSmallMatches = (case p_truncateSmallMatches p of Some b \<Rightarrow> b | None \<Rightarrow> True),
      truncateSmallScore = (case p_truncateSmallScore p of Some b \<Rightarrow> b | None \<Rightarrow> False),
      onlyKeepPerfectMatch = (case p_onlyKeepPerfectMatch p of Some b \<Rightarrow> b | None \<Rightarrow> True)\<rparr>"

definition no_params :: params where
  "no_params =
     \<lparr>p_limit = None, p_geofence = Absent, p_enableFuzzySearch = None,
      p_persistOrder = None, p_truncateSmallMatches = None, p_truncateSmallScore = None,
      p_onlyKeepPerfectMatch = None\<rparr>"

definition default_options :: options where
  "default_options = defaults no_params"

subsection \<open>measure1\<close>

text \<open>
  A term of \<open>result\<close>; \<open>measure2\<close> and \<open>matches\<close> are \<open>None\<close> until the n-gram block
  sets them. The entries of the response carry the combined measure too.
\<close>

record scored =
  meta :: "json option"
  measure1 :: jsnum
  emoji :: ustring
  measure2 :: "jsnum option"
  matches :: "ustring list option"

record entry = scored +
  measure_sum :: jsnum

definition kws :: "env \<Rightarrow> ustring \<Rightarrow> ustring" where
  "kws e query =
     (if isAscii query then query
      else join_space (convertEmojiToKeywords (emojiLib e) query))"

text \<open>\<open>tfidf.tfidfs\<close> calls back once for each document, in insertion order.\<close>

definition tfidfs :: "env \<Rightarrow> db \<Rightarrow> ustring \<Rightarrow> real list" where
  "tfidfs e s query =
     map (tfidf_measure e (map doc_keywords s) (kws e query)) [0..<length s]"

definition measure1_stage :: "env \<Rightarrow> db \<Rightarrow> ustring \<Rightarrow> scored list" where
  "measure1_stage e s query =
     (let ms = tfidfs e s query; measure1Sum = sum_list ms
      in map (\<lambda>(d, m). \<lparr>meta = doc_meta d, measure1 = js_div m measure1Sum,
                         emoji = doc_emoji d, measure2 = None, matches = None\<rparr>)
             (zip s ms))"

subsection \<open>measure2\<close>

definition querySplitted :: "ustring \<Rightarrow> ustring list" where
  "querySplitted query = stringToArray query"

text \<open>The \<open>length\<close> property of a string counts UTF-16 code units.\<close>

definition utf16_length :: "ustring \<Rightarrow> nat" where
  "utf16_length s = sum_list (map (\<lambda>c. if c < 0x10000 then 1 else 2) s)"

definition subsets :: "bool \<Rightarrow> ustring \<Rightarrow> ustring list" where
  "subsets po query =
     (let qs = querySplitted query; n = length qs
      in if po then
           sort_key utf16_length
             (map (\<lambda>(start, len). concat (take len (drop start qs)))
                (concat (map (\<lambda>start. map (\<lambda>offset. (start, offset + 1)) [0..<n - start])
                           [0..<n])))
         else qs)"

definition subsetLengthSum :: "ustring list \<Rightarrow> nat" where
  "subsetLengthSum subs = sum_list (map stringSize subs)"

text \<open>\<open>_.includes\<close> on strings: the second occurs in the first as a contiguous part.\<close>

definition str_includes :: "ustring \<Rightarrow> ustring \<Rightarrow> bool" where
  "str_includes hay needle = sublist needle hay"

definition subset_matches :: "ustring \<Rightarrow> ustring \<Rightarrow> bool" where
  "subset_matches em sub =
     str_includes (stripVariationSelectors em) (stripVariationSelectors sub)"

text \<open>
  One subset of the chain: the running sum and the \<open>matches\<close> so far.
  \<open>_.union([subset], matches)\<close> puts the subset in front and keeps each string once.
\<close>

definition ngram_step :: "ustring \<Rightarrow> nat \<times> ustring list \<Rightarrow> ustring \<Rightarrow> nat \<times> ustring list" where
  "ngram_step em acc sub =
     (if subset_matches em sub
      then (fst acc + stringSize sub, sub # removeAll sub (snd acc))
      else acc)"

text \<open>The chain over all subsets, for a document with the emoji sequence \<open>em\<close>.\<close>

definition ngram_acc :: "ustring \<Rightarrow> ustring list \<Rightarrow> nat \<times> ustring list" where
  "ngram_acc em subs = foldl (ngram_step em) (0, []) subs"

definition ngram_term :: "ustring list \<Rightarrow> scored \<Rightarrow> scored" where
  "ngram_term subs t =
     (let acc = ngram_acc (emoji t) subs
      in t\<lparr>measure2 := Some (js_div (real (fst acc)) (real (subsetLengthSum subs))),
            matches := Some (snd acc)\<rparr>)"

definition ngram_block :: "bool \<Rightarrow> ustring \<Rightarrow> scored list \<Rightarrow> scored list" where
  "ngram_block po query result = map (ngram_term (subsets po query)) result"

definition ngram_stage :: "bool \<Rightarrow> ustring \<Rightarrow> scored list \<Rightarrow> scored list" where
  "ngram_stage po query result =
     (if \<not> isAscii query then ngram_block po query result else result)"

subsection \<open>The geofence\<close>

text \<open>
  \<open>item.meta.geolocation\<close> where \<open>_.has(item, 'meta.geolocation')\<close>, \<open>None\<close> where not.
\<close>

definition geolocation :: "scored \<Rightarrow> json option" where
  "geolocation item =
     (case meta item of Some (JObj kvs) \<Rightarrow> map_of kvs ''geolocation'' | _ \<Rightarrow> None)"

text \<open>
  geolib reads the latitude and the longitude of the point it is given, which throws on
  \<open>null\<close>: the one geolocation besides an object with both coordinates that the schema
  lets into the database.
\<close>

definition geolib_call :: "(json \<Rightarrow> bool) \<Rightarrow> json \<Rightarrow> error + bool" where
  "geolib_call test g = (if g = JNull then Inl TypeError else Inr (test g))"

definition filterIsPointInside :: "env \<Rightarrow> geofence option \<Rightarrow> scored \<Rightarrow> error + bool" where
  "filterIsPointInside e gf item =
     (case gf of
        Some (Box la lo dla dlo) \<Rightarrow>
          (case geolocation item of
             None \<Rightarrow> Inr True
           | Some g \<Rightarrow> geolib_call (\<lambda>point. isPointInside e point
               [(la - dla, lo - dlo), (la + dla, lo - dlo), (la + dla, lo + dlo), (la - dla, lo + dlo)]) g)
      | _ \<Rightarrow> Inr True)"

definition filterIsPointInCircle :: "env \<Rightarrow> geofence option \<Rightarrow> scored \<Rightarrow> error + bool" where
  "filterIsPointInCircle e gf item =
     (case gf of
        Some (Circle la lo r) \<Rightarrow>
          (case geolocation item of
             None \<Rightarrow> Inr True
           | Some g \<Rightarrow> geolib_call (\<lambda>point. isPointInCircle e point (la, lo) r) g)
      | _ \<Rightarrow> Inr True)"

text \<open>\<open>.filter(f)\<close> with a predicate that may throw: the first exception ends it.\<close>

fun filter_or_throw :: "('a \<Rightarrow> error + bool) \<Rightarrow> 'a list \<Rightarrow> error + 'a list" where
  "filter_or_throw f [] = Inr []"
| "filter_or_throw f (x # xs) =
     (case f x of
        Inl err \<Rightarrow> Inl err
      | Inr keep \<Rightarrow>
          (case filter_or_throw f xs of
             Inl err \<Rightarrow> Inl err
           | Inr ys \<Rightarrow> Inr (if keep then x # ys else ys)))"

definition geo_stage :: "env \<Rightarrow> geofence option \<Rightarrow> scored list \<Rightarrow> error + scored list" where
  "geo_stage e gf result =
     (case filter_or_throw (filterIsPointInside e gf) result of
        Inl err \<Rightarrow> Inl err
      | Inr inside \<Rightarrow> filter_or_throw (filterIsPointInCircle e gf) inside)"

subsection \<open>The combined measure and the result policy\<close>

definition fuzzy_stage :: "bool \<Rightarrow> scored list \<Rightarrow> scored list" where
  "fuzzy_stage fz result =
     (if \<not> fz then map (\<lambda>t. t\<lparr>measure1 := Num 0\<rparr>) result else result)"

definition to_entry :: "scored \<Rightarrow> entry" where
  "to_entry t =
     \<lparr>meta = meta t, measure1 = measure1 t, emoji = emoji t, measure2 = measure2 t,
      matches = matches t,
      measure_sum = js_add (or_zero (Some (measure1 t))) (or_zero (measure2 t))\<rparr>"

definition combine_stage :: "scored list \<Rightarrow> entry list" where
  "combine_stage result = filter (\<lambda>t. truthy (measure_sum t)) (map to_entry result)"

text \<open>\<open>_.size(o.matches)\<close>, 0 on \<open>undefined\<close>.\<close>

definition size_matches :: "entry \<Rightarrow> nat" where
  "size_matches t = (case matches t of None \<Rightarrow> 0 | Some ms \<Rightarrow> length ms)"

definition filterSmallMatch :: "options \<Rightarrow> entry list \<Rightarrow> entry \<Rightarrow> bool" where
  "filterSmallMatch opts result t =
     (if truncateSmallMatches opts
      then Some (size_matches t) = nat_max (map size_matches result)
      else True)"

definition filterSmallScore :: "options \<Rightarrow> entry list \<Rightarrow> entry \<Rightarrow> bool" where
  "filterSmallScore opts result t =
     (if truncateSmallScore opts
      then (case js_max (map measure_sum result) of
              None \<Rightarrow> False
            | Some m \<Rightarrow> js_eq (measure_sum t) m)
      else True)"

definition filterPerfectMatch :: "options \<Rightarrow> entry \<Rightarrow> bool" where
  "filterPerfectMatch opts t =
     (if onlyKeepPerfectMatch opts
      then (case measure2 t of None \<Rightarrow> False | Some m \<Rightarrow> js_eq m (Num 1))
      else True)"

definition filtered :: "options \<Rightarrow> entry list \<Rightarrow> entry list" where
  "filtered opts result =
     filter (filterSmallScore opts result)
       (filter (filterSmallMatch opts result)
          (filter (filterPerfectMatch opts) result))"

text \<open>\<open>_.take(xs, n)\<close>: \<open>n\<close> cut to an integer, nothing for a negative \<open>n\<close>.\<close>

definition js_take :: "real \<Rightarrow> 'a list \<Rightarrow> 'a list" where
  "js_take n xs = take (nat \<lfloor>n\<rfloor>) xs"

definition policy_stage :: "options \<Rightarrow> entry list \<Rightarrow> entry list" where
  "policy_stage opts result =
     js_take (limit opts)
       (rev (sort_key (\<lambda>t. jrank (measure_sum t)) (filtered opts result)))"

text \<open>The list that enters the result filters, unless geolib threw.\<close>

definition combined :: "env \<Rightarrow> db \<Rightarrow> ustring \<Rightarrow> options \<Rightarrow> error + entry list" where
  "combined e s query opts =
     (case geo_stage e (geofence opts)
             (ngram_stage (persistOrder opts) query (measure1_stage e s query)) of
        Inl err \<Rightarrow> Inl err
      | Inr result \<Rightarrow> Inr (combine_stage (fuzzy_stage (enableFuzzySearch opts) result)))"

definition search :: "env \<Rightarrow> db \<Rightarrow> ustring \<Rightarrow> options \<Rightarrow> error + entry list" where
  "search e s query opts =
     (case combined e s query opts of
        Inl err \<Rightarrow> Inl err
      | Inr result \<Rightarrow> Inr (policy_stage opts result))"

definition search_handler :: "env \<Rightarrow> db \<Rightarrow> ustring \<Rightarrow> params \<Rightarrow> error + entry list" where
  "search_handler e s query p =
     (if p_geofence p = Unparseable then Inl SyntaxError
      else if \<not> searchValidate p then Inl ValidationError
      else search e s query (defaults p))"

section \<open>Example data\<close>

text \<open>
  A stand-in for what lies outside: every document gets the raw measure 1 (what TF-IDF
  gives to documents with the same text), the keyword table is empty, no point lies
  inside any fence, and the disk takes every write.
\<close>

definition example_env :: env where
  "example_env =
     \<lparr>emojiLib = Map.empty, tfidf_measure = (\<lambda>texts ws i. 1),
      isPointInside = (\<lambda>g polygon. False), isPointInCircle = (\<lambda>g centre r. False),
      writeFileSync = (\<lambda>s. True)\<rparr>"

definition example_item :: scored where
  "example_item =
     \<lparr>meta = Some (JObj [(''name'', JStr [104, 105])]), measure1 = Num 1, emoji = [0x1F600],
      measure2 = None, matches = None\<rparr>"

definition ascii_doc :: document where
  "ascii_doc = \<lparr>doc_keywords = [], doc_meta = None, doc_emoji = [97, 98, 99]\<rparr>"

definition smile_doc :: document where
  "smile_doc = \<lparr>doc_keywords = [], doc_meta = None, doc_emoji = [0x1F600]\<rparr>"

definition half_located_body :: "(string \<times> json) list" where
  "half_located_body =
     [(''emoji'', JStr [0x1F600]),
      (''meta'', JObj [(''geolocation'', JObj [(''latitude'', JNum 1)])])]"

definition party_doc :: document where
  "party_doc = \<lparr>doc_keywords = [], doc_meta = None, doc_emoji = [0x1F600, 0x1F389]\<rparr>"



text \<open>One document with a single emoji, then fifty that contain it.\<close>

definition crowded_db :: db where
  "crowded_db = smile_doc # replicate 50 party_doc"

definition confetti_doc :: document where
  "confetti_doc = \<lparr>doc_keywords = [], doc_meta = None, doc_emoji = [0x1F389]\<rparr>"

text \<open>
  A second stand-in, where the emoji U+1F600 has the keyword \<open>grin\<close>, U+1F389 has the
  keyword \<open>party\<close>, and the raw measure of a document grows with its text, as a term
  frequency does.
\<close>

definition weighted_env :: env where
  "weighted_env =
     \<lparr>emojiLib = [0x1F600 \<mapsto> [[103, 114, 105, 110]], 0x1F389 \<mapsto> [[112, 97, 114, 116, 121]]],
      tfidf_measure = (\<lambda>texts ws i. real (length (concat (take 1 (drop i texts))))),
      isPointInside = (\<lambda>g polygon. False), isPointInCircle = (\<lambda>g centre r. False),
      writeFileSync = (\<lambda>s. True)\<rparr>"

definition grin :: document where
  "grin = \<lparr>doc_keywords = [103, 114, 105, 110], doc_meta = None, doc_emoji = [0x1F600]\<rparr>"

definition grin_party :: document where
  "grin_party =
     \<lparr>doc_keywords = [103, 114, 105, 110, 32, 112, 97, 114, 116, 121], doc_meta = None,
      doc_emoji = [0x1F600, 0x1F389]\<rparr>"

definition grin_twice :: document where
  "grin_twice =
     \<lparr>doc_keywords = [103, 114, 105, 110, 32, 103, 114, 105, 110], doc_meta = None,
      doc_emoji = [0x1F600, 0x1F600]\<rparr>"

text \<open>An item whose metadata has the geolocation \<open>null\<close>.\<close>

definition null_located_item :: scored where
  "null_located_item =
     \<lparr>meta = Some (JObj [(''geolocation'', JNull)]), measure1 = Num 1, emoji = [0x1F600],
      measure2 = None, matches = None\<rparr>"

section \<open>Properties of the symbols\<close>

lemma reUnicode_len_pos: "0 < reUnicode_len (c # cs)"
  by (simp add: Let_def)

declare stringToArray.simps [simp del]

lemma concat_stringToArray: "concat (stringToArray s) = s"
  by (induction s rule: stringToArray.induct) (simp_all add: stringToArray.simps)

lemma stringToArray_nonempty: "p \<in> set (stringToArray s) \<Longrightarrow> p \<noteq> []"
proof (induction s rule: stringToArray.induct)
  case 1
  then show ?case by (simp add: stringToArray.simps)
next
  case (2 c cs)
  from 2 reUnicode_len_pos [of c cs] show ?case
    by (auto simp: stringToArray.simps(2) [of c cs] simp del: reUnicode_len.simps)
qed

lemma stringToArray_Nil_iff: "stringToArray s = [] \<longleftrightarrow> s = []"
  by (cases s) (simp_all add: stringToArray.simps)

lemma stringSize_pos: "s \<noteq> [] \<Longrightarrow> 0 < stringSize s"
  by (simp add: stringSize_def stringToArray_Nil_iff)














section \<open>The geofence filter\<close>

lemma geolocation_None:
  "(\<forall>kvs. meta item = Some (JObj kvs) \<longrightarrow> ''geolocation'' \<notin> fst ` set kvs)
   \<Longrightarrow> geolocation item = None"
  by (auto simp: geolocation_def map_of_eq_None_iff split: option.splits json.splits)

lemma filter_or_throw_Inr:
  "filter_or_throw f xs = Inr ys \<Longrightarrow> ys = filter (\<lambda>x. f x = Inr True) xs"
  by (induction xs arbitrary: ys) (auto split: sum.splits if_splits)

lemma filter_or_throw_defined:
  "(\<forall>x \<in> set xs. \<exists>keep. f x = Inr keep)
   \<Longrightarrow> filter_or_throw f xs = Inr (filter (\<lambda>x. f x = Inr True) xs)"
  by (induction xs) (auto split: sum.splits)

lemma filter_or_throw_error:
  "filter_or_throw f xs = Inl err \<Longrightarrow> \<exists>x \<in> set xs. f x = Inl err"
  by (induction xs) (auto split: sum.splits if_splits)

lemma geo_stage_Inr:
  assumes "geo_stage e gf result = Inr kept"
  shows "kept = filter (\<lambda>x. filterIsPointInCircle e gf x = Inr True)
                  (filter (\<lambda>x. filterIsPointInside e gf x = Inr True) result)"
proof -
  from assms obtain inside where
    i: "filter_or_throw (filterIsPointInside e gf) result = Inr inside"
    and k: "filter_or_throw (filterIsPointInCircle e gf) inside = Inr kept"
    by (auto simp: geo_stage_def split: sum.splits)
  from filter_or_throw_Inr [OF i] filter_or_throw_Inr [OF k] show ?thesis by simp
qed

lemma geo_stage_subset: "geo_stage e gf result = Inr kept \<Longrightarrow> set kept \<subseteq> set result"
  by (auto dest: geo_stage_Inr)

lemma geo_stage_length: "geo_stage e gf result = Inr kept \<Longrightarrow> length kept \<le> length result"
proof -
  assume "geo_stage e gf result = Inr kept"
  from geo_stage_Inr [OF this] show ?thesis
    by (metis length_filter_le order_trans)
qed

lemma filter_or_throw_all: "(\<And>x. f x = Inr True) \<Longrightarrow> filter_or_throw f xs = Inr xs"
  by (induction xs) simp_all

lemma geo_stage_no_fence [simp]: "geo_stage e None result = Inr result"
  by (simp add: geo_stage_def filterIsPointInside_def filterIsPointInCircle_def
      filter_or_throw_all)

lemma geo_filters_defined:
  assumes "geolocation x \<noteq> Some JNull"
  shows "\<exists>keep. filterIsPointInside e gf x = Inr keep"
    and "\<exists>keep. filterIsPointInCircle e gf x = Inr keep"
  using assms
  by (auto simp: filterIsPointInside_def filterIsPointInCircle_def geolib_call_def
      split: option.splits geofence.splits)

lemma geo_stage_defined:
  assumes "\<forall>x \<in> set result. geolocation x \<noteq> Some JNull"
  shows "\<exists>kept. geo_stage e gf result = Inr kept"
proof -
  have "\<forall>x \<in> set result. \<exists>keep. filterIsPointInside e gf x = Inr keep"
    using assms geo_filters_defined(1) by blast
  from filter_or_throw_defined [OF this] obtain inside where
    i: "filter_or_throw (filterIsPointInside e gf) result = Inr inside" by blast
  from filter_or_throw_Inr [OF i] have "set inside \<subseteq> set result" by auto
  then have "\<forall>x \<in> set inside. \<exists>keep. filterIsPointInCircle e gf x = Inr keep"
    using assms geo_filters_defined(2) by blast
  from filter_or_throw_defined [OF this] i show ?thesis
    by (simp add: geo_stage_def)
qed

lemma geo_stage_error: "geo_stage e gf result = Inl err \<Longrightarrow> err = TypeError"
proof -
  assume a: "geo_stage e gf result = Inl err"
  have f: "f x = Inl err \<Longrightarrow> err = TypeError"
    if "f = filterIsPointInside e gf \<or> f = filterIsPointInCircle e gf" for f x
    using that
    by (auto simp: filterIsPointInside_def filterIsPointInCircle_def geolib_call_def
        split: option.splits geofence.splits if_splits)
  from a consider "filter_or_throw (filterIsPointInside e gf) result = Inl err"
    | inside where "filter_or_throw (filterIsPointInCircle e gf) inside = Inl err"
    by (auto simp: geo_stage_def split: sum.splits)
  then show ?thesis
    by cases (auto dest!: filter_or_throw_error intro: f)
qed

text \<open>
  Claim C9. An item whose metadata has no \<open>geolocation\<close> field (no metadata at all, a
  \<open>null\<close>, or an object without that key) passes both geofence filters whatever the
  geofence is, and geolib is not asked about it; so it is in the filtered result whenever
  the filtering comes to an end. Without a geofence the two filters return the result
  as it was. The filtering comes to an end unless geolib is given the geolocation
  \<open>null\<close> of some other item and throws.
\<close>

theorem geo_filter_keeps_unlocated:
  "((\<forall>kvs. meta item = Some (JObj kvs) \<longrightarrow> ''geolocation'' \<notin> fst ` set kvs)
     \<longrightarrow> filterIsPointInside e gf item = Inr True \<and> filterIsPointInCircle e gf item = Inr True
         \<and> (\<forall>kept. geo_stage e gf result = Inr kept \<and> item \<in> set result \<longrightarrow> item \<in> set kept))
   \<and> geo_stage e None result = Inr result
   \<and> ((\<forall>x \<in> set result. geolocation x \<noteq> Some JNull) \<longrightarrow> (\<exists>kept. geo_stage e gf result = Inr kept))"
proof -
  have a: "filterIsPointInside e gf item = Inr True \<and> filterIsPointInCircle e gf item = Inr True"
    if "\<forall>kvs. meta item = Some (JObj kvs) \<longrightarrow> ''geolocation'' \<notin> fst ` set kvs"
    using geolocation_None [OF that]
    by (simp add: filterIsPointInside_def filterIsPointInCircle_def
             split: option.splits geofence.splits)
  have b: "item \<in> set kept"
    if "\<forall>kvs. meta item = Some (JObj kvs) \<longrightarrow> ''geolocation'' \<notin> fst ` set kvs"
      and "geo_stage e gf result = Inr kept" and "item \<in> set result" for kept
    using a [OF that(1)] geo_stage_Inr [OF that(2)] that(3) by simp
  from a b geo_stage_defined show ?thesis by (simp (no_asm_simp))
qed

theorem geo_filter_keeps_unlocated_witness:
  "geo_stage example_env (Some (Circle 0 0 1)) [example_item] = Inr [example_item]
   \<and> geo_stage example_env (Some (Box 0 0 1 1)) [example_item] = Inr [example_item]
   \<and> geo_stage example_env None [example_item, null_located_item]
       = Inr [example_item, null_located_item]"
proof -
  have h: "\<forall>kvs. meta example_item = Some (JObj kvs) \<longrightarrow> ''geolocation'' \<notin> fst ` set kvs"
    by (simp add: example_item_def)
  have g: "\<forall>x \<in> set [example_item]. geolocation x \<noteq> Some JNull"
    by (simp add: example_item_def geolocation_def)
  from geo_filter_keeps_unlocated [of example_item example_env "Some (Circle 0 0 1)" "[example_item]"]
    h g obtain k1 where k1: "geo_stage example_env (Some (Circle 0 0 1)) [example_item] = Inr k1"
      and "example_item \<in> set k1"
    by auto
  from geo_filter_keeps_unlocated [of example_item example_env "Some (Box 0 0 1 1)" "[example_item]"]
    h g obtain k2 where k2: "geo_stage example_env (Some (Box 0 0 1 1)) [example_item] = Inr k2"
      and "example_item \<in> set k2"
    by auto
  from geo_stage_Inr [OF k1] geo_stage_Inr [OF k2] \<open>example_item \<in> set k1\<close> \<open>example_item \<in> set k2\<close>
  have "k1 = [example_item]" "k2 = [example_item]"
    by (auto split: if_splits)
  with k1 k2 show ?thesis by simp
qed

text \<open>With a geofence, an item with the geolocation \<open>null\<close> makes the filtering throw.\<close>

lemma null_geolocation_throws:
  "geo_stage example_env (Some (Circle 0 0 1)) [example_item, null_located_item] = Inl TypeError"
  by (simp add: geo_stage_def filterIsPointInside_def filterIsPointInCircle_def geolocation_def
      geolib_call_def example_item_def null_located_item_def)

section \<open>The stages of a search\<close>

lemma measure1_stage_fields:
  "t \<in> set (measure1_stage e s query) \<Longrightarrow> measure2 t = None \<and> matches t = None"
  by (auto simp: measure1_stage_def Let_def)

lemma length_tfidfs [simp]: "length (tfidfs e s query) = length s"
  by (simp add: tfidfs_def)

lemma to_entry_simps [simp]:
  "meta (to_entry t) = meta t" "measure1 (to_entry t) = measure1 t" "emoji (to_entry t) = emoji t"
  "measure2 (to_entry t) = measure2 t" "matches (to_entry t) = matches t"
  "measure_sum (to_entry t) = js_add (or_zero (Some (measure1 t))) (or_zero (measure2 t))"
  by (simp_all add: to_entry_def)

lemma combine_stage_source:
  "t \<in> set (combine_stage result) \<Longrightarrow> \<exists>u \<in> set result. t = to_entry u"
  by (auto simp: combine_stage_def)

lemma fuzzy_stage_source:
  "t \<in> set (fuzzy_stage fz result) \<Longrightarrow>
     \<exists>u \<in> set result. measure2 t = measure2 u \<and> matches t = matches u
        \<and> emoji t = emoji u \<and> meta t = meta u"
  by (auto simp: fuzzy_stage_def split: if_splits)

lemma combined_Inr:
  "combined e s query opts = Inr cmb \<Longrightarrow>
     \<exists>kept. geo_stage e (geofence opts)
               (ngram_stage (persistOrder opts) query (measure1_stage e s query)) = Inr kept
            \<and> cmb = combine_stage (fuzzy_stage (enableFuzzySearch opts) kept)"
  by (auto simp: combined_def split: sum.splits)

lemma combined_error: "combined e s query opts = Inl err \<Longrightarrow> err = TypeError"
  by (auto simp: combined_def split: sum.splits dest: geo_stage_error)

lemma search_Inr:
  "search e s query opts = Inr out \<longleftrightarrow>
     (\<exists>cmb. combined e s query opts = Inr cmb \<and> out = policy_stage opts cmb)"
  by (auto simp: search_def split: sum.splits)

lemma search_error: "search e s query opts = Inl err \<Longrightarrow> err = TypeError"
  by (auto simp: search_def split: sum.splits dest: combined_error)

lemma default_options_simps [simp]:
  "limit default_options = 50" "geofence default_options = None"
  "enableFuzzySearch default_options = False" "persistOrder default_options = False"
  "truncateSmallMatches default_options = True" "truncateSmallScore default_options = False"
  "onlyKeepPerfectMatch default_options = True"
  by (simp_all add: default_options_def defaults_def no_params_def)

lemma combined_no_fence:
  "geofence opts = None \<Longrightarrow>
     combined e s query opts
       = Inr (combine_stage (fuzzy_stage (enableFuzzySearch opts)
                (ngram_stage (persistOrder opts) query (measure1_stage e s query))))"
  by (simp add: combined_def)

lemma search_no_fence:
  "geofence opts = None \<Longrightarrow> \<exists>out. search e s query opts = Inr out"
  by (simp add: search_def combined_no_fence)

lemma combined_ascii:
  assumes "isAscii query" and "combined e s query opts = Inr cmb" and "t \<in> set cmb"
  shows "measure2 t = None"
proof -
  from combined_Inr [OF assms(2)] obtain kept where
    k: "geo_stage e (geofence opts)
          (ngram_stage (persistOrder opts) query (measure1_stage e s query)) = Inr kept"
    and c: "cmb = combine_stage (fuzzy_stage (enableFuzzySearch opts) kept)"
    by blast
  from assms(3) c obtain u where "u \<in> set (fuzzy_stage (enableFuzzySearch opts) kept)"
      and tu: "t = to_entry u"
    by (blast dest: combine_stage_source)
  then obtain v where "v \<in> set kept" and uv: "measure2 u = measure2 v"
    by (blast dest: fuzzy_stage_source)
  then have "v \<in> set (measure1_stage e s query)"
    using assms(1) geo_stage_subset [OF k] by (auto simp: ngram_stage_def)
  with measure1_stage_fields tu uv show ?thesis by simp
qed

text \<open>
  Claim C10. A query made of ASCII characters only, run with the default options, returns
  the empty list whatever the database holds: the n-gram block is skipped, so no term
  has a \<open>measure2\<close>, and the perfect-match filter keeps nothing. The same holds for
  every choice of options with \<open>onlyKeepPerfectMatch\<close> set, unless a geofence makes
  geolib throw.
\<close>

theorem ascii_query_finds_nothing:
  "isAscii query \<Longrightarrow>
     search e s query default_options = Inr []
     \<and> (onlyKeepPerfectMatch opts \<longrightarrow>
          search e s query opts = Inr [] \<or> search e s query opts = Inl TypeError)"
proof -
  assume a: "isAscii query"
  have n: "out = []" if "onlyKeepPerfectMatch o'" "search e s query o' = Inr out" for o' out
  proof -
    from that(2) obtain cmb where c: "combined e s query o' = Inr cmb"
      and out: "out = policy_stage o' cmb"
      by (auto simp: search_Inr)
    have "filter (filterPerfectMatch o') cmb = []"
      using that(1) combined_ascii [OF a c]
      by (auto simp: filter_empty_conv filterPerfectMatch_def)
    then show ?thesis
      by (simp add: out policy_stage_def filtered_def js_take_def)
  qed
  have "search e s query o' = Inr [] \<or> search e s query o' = Inl TypeError"
    if "onlyKeepPerfectMatch o'" for o'
  proof (cases "search e s query o'")
    case (Inl err)
    with search_error [OF Inl] show ?thesis by simp
  next
    case (Inr out)
    with n [OF that Inr] show ?thesis by simp
  qed
  moreover have "search e s query default_options = Inr []"
    using search_no_fence [of default_options e s query] n [of default_options] by auto
  ultimately show ?thesis by simp
qed

theorem ascii_query_finds_nothing_witness:
  "isAscii [97, 98, 99] \<and> search example_env [ascii_doc] [97, 98, 99] default_options = Inr []"
  using ascii_query_finds_nothing [of "[97, 98, 99]" example_env "[ascii_doc]" default_options]
  by (simp add: isAscii_def)

section \<open>Validation\<close>

lemma no_additional_iff: "no_additional kvs ks \<longleftrightarrow> fst ` set kvs \<subseteq> set ks"
  by (auto simp: no_additional_def list_all_iff)

lemma malformed_geolocation_rejected:
  assumes "map_of g ''latitude'' = None \<or> map_of g ''longitude'' = None
           \<or> (\<exists>k \<in> fst ` set g. k \<noteq> ''latitude'' \<and> k \<noteq> ''longitude'')"
  shows "\<not> geolocation_ok (JObj g)"
  using assms by (auto simp: geolocation_ok_def oneOf2_def required_ok_def no_additional_iff)

lemma post_cases:
  "post e s body = (Inl ValidationError, s)
   \<or> (\<exists>d. snd (post e s body) = s @ [d]
          \<and> map_of body ''emoji'' = Some (JStr (doc_emoji d))
          \<and> doc_meta d = map_of body ''meta''
          \<and> doc_keywords d = join_space (convertEmojiToKeywords (emojiLib e) (doc_emoji d))
          \<and> fst (post e s body) = (if writeFileSync e (s @ [d]) then Inr () else Inl WriteError))"
  by (cases "documentPostValidate body"; cases "map_of body ''emoji''")
     (auto simp: post_def Let_def split: json.splits)

text \<open>
  Claim C7, amended. A request whose metadata carries a geolocation object that lacks
  \<open>latitude\<close> or \<open>longitude\<close>, or has a field besides the two, fails with a
  ValidationError before any store is changed; a request that fails with a ValidationError
  leaves the database as it was. An empty emoji string is not rejected: the schema asks
  for a string only, so a request with the empty string and no metadata is stored.
\<close>

theorem post_rejects_malformed_geolocation:
  "(map_of body ''meta'' = Some (JObj m) \<and> map_of m ''geolocation'' = Some (JObj g)
      \<and> (map_of g ''latitude'' = None \<or> map_of g ''longitude'' = None
          \<or> (\<exists>k \<in> fst ` set g. k \<noteq> ''latitude'' \<and> k \<noteq> ''longitude''))
     \<longrightarrow> post e s body = (Inl ValidationError, s))
   \<and> (fst (post e s body) = Inl ValidationError \<longrightarrow> snd (post e s body) = s)
   \<and> (map_of body ''emoji'' = Some (JStr []) \<and> map_of body ''meta'' = None
     \<longrightarrow> fst (post e s body) \<noteq> Inl ValidationError
         \<and> snd (post e s body) = s @ [\<lparr>doc_keywords = [], doc_meta = None, doc_emoji = []\<rparr>])"
proof -
  have "fst (post e s body) \<noteq> Inl ValidationError
        \<and> snd (post e s body) = s @ [\<lparr>doc_keywords = [], doc_meta = None, doc_emoji = []\<rparr>]"
    if "map_of body ''emoji'' = Some (JStr [])" "map_of body ''meta'' = None"
    using that
    by (simp add: post_def documentPostValidate_def prop_ok_def required_ok_def
        convertEmojiToKeywords_def Let_def)
  moreover
  have "\<not> documentPostValidate body"
    if "map_of body ''meta'' = Some (JObj m)" "map_of m ''geolocation'' = Some (JObj g)"
       "map_of g ''latitude'' = None \<or> map_of g ''longitude'' = None
          \<or> (\<exists>k \<in> fst ` set g. k \<noteq> ''latitude'' \<and> k \<noteq> ''longitude'')"
    using that(1,2) malformed_geolocation_rejected [OF that(3)]
    by (simp add: documentPostValidate_def prop_ok_def meta_ok_def oneOf2_def)
  moreover have "fst (post e s body) = Inl ValidationError \<longrightarrow> snd (post e s body) = s"
    using post_cases [of e s body] by (auto split: if_splits)
  ultimately show ?thesis by (simp add: post_def)
qed

theorem post_rejects_malformed_geolocation_witness:
  "post example_env [smile_doc] half_located_body = (Inl ValidationError, [smile_doc])
   \<and> fst (post example_env [smile_doc] [(''emoji'', JStr [])]) = Inr ()"
  using post_rejects_malformed_geolocation
    [of half_located_body "[(''geolocation'', JObj [(''latitude'', JNum 1)])]"
        "[(''latitude'', JNum 1)]" example_env "[smile_doc]", THEN conjunct1]
    post_rejects_malformed_geolocation
    [of "[(''emoji'', JStr [])]" _ _ example_env "[smile_doc]", THEN conjunct2, THEN conjunct2]
  by (simp add: half_located_body_def)
     (simp add: post_def documentPostValidate_def prop_ok_def required_ok_def Let_def
        example_env_def)

text \<open>
  The claim as written fails: the empty emoji string is accepted and stored.
\<close>

theorem post_accepts_empty_emoji:
  "post example_env [] [(''emoji'', JStr [])]
     = (Inr (), [\<lparr>doc_keywords = [], doc_meta = None, doc_emoji = []\<rparr>])"
  by (simp add: post_def documentPostValidate_def prop_ok_def required_ok_def
      convertEmojiToKeywords_def Let_def example_env_def)

text \<open>
  Where the write to disk throws, the request fails and the document is in memory all
  the same.
\<close>

lemma failed_write_keeps_document:
  "post (example_env\<lparr>writeFileSync := (\<lambda>s. False)\<rparr>) [] [(''emoji'', JStr [0x1F600])]
     = (Inl WriteError, [smile_doc])"
  by (simp add: post_def documentPostValidate_def prop_ok_def required_ok_def
      convertEmojiToKeywords_def Let_def example_env_def smile_doc_def)

text \<open>The search: what the schema turns away.\<close>

lemma search_handler_rejects_geofence:
  "p_geofence p = Parsed g \<Longrightarrow> \<not> geofence_ok g
   \<Longrightarrow> search_handler e s query p = Inl ValidationError"
  by (simp add: search_handler_def searchValidate_def)

lemma search_handler_rejects_limit:
  "p_limit p = Some txt \<Longrightarrow> p_geofence p \<noteq> Unparseable
   \<Longrightarrow> search_handler e s query p = Inl ValidationError"
  by (simp add: search_handler_def searchValidate_def)

lemma negative_limit_rejected:
  "search_handler example_env [smile_doc] [0x1F600] (no_params\<lparr>p_limit := Some [45, 49]\<rparr>)
     = Inl ValidationError"
  by (simp add: search_handler_def searchValidate_def no_params_def)

lemma extra_field_rejected:
  "search_handler example_env [smile_doc] [0x1F600]
     (no_params\<lparr>p_geofence := Parsed (JObj [(''latitude'', JNum 0), (''longitude'', JNum 0),
                                               (''radius'', JNum 1), (''unit'', JNum 1)])\<rparr>)
     = Inl ValidationError"
  by (simp add: search_handler_def searchValidate_def no_params_def geofence_circle_ok_def
      geofence_box_ok_def oneOf2_def no_additional_def required_ok_def prop_ok_def)

lemma num_field_None:
  "num_field kvs k = None \<Longrightarrow> \<not> (map_of kvs k \<noteq> None \<and> prop_ok kvs k is_number)"
proof (cases "map_of kvs k")
  case None
  then show ?thesis by simp
next
  case (Some v)
  assume "num_field kvs k = None"
  with Some show ?thesis by (cases v) (simp_all add: num_field_def prop_ok_def)
qed

lemma circle_ok_fields:
  "geofence_circle_ok kvs \<Longrightarrow>
     num_field kvs ''latitude'' \<noteq> None \<and> num_field kvs ''longitude'' \<noteq> None
     \<and> num_field kvs ''radius'' \<noteq> None"
  using num_field_None [of kvs "''latitude''"] num_field_None [of kvs "''longitude''"]
    num_field_None [of kvs "''radius''"]
  by (auto simp: geofence_circle_ok_def required_ok_def)

lemma box_ok_fields:
  "geofence_box_ok kvs \<Longrightarrow>
     num_field kvs ''latitude'' \<noteq> None \<and> num_field kvs ''longitude'' \<noteq> None
     \<and> num_field kvs ''latitudeDelta'' \<noteq> None \<and> num_field kvs ''longitudeDelta'' \<noteq> None
     \<and> map_of kvs ''radius'' = None"
proof -
  assume ok: "geofence_box_ok kvs"
  then have "''radius'' \<notin> fst ` set kvs"
    by (auto simp: geofence_box_ok_def no_additional_iff)
  then have "map_of kvs ''radius'' = None" by (simp add: map_of_eq_None_iff)
  with ok show ?thesis
    using num_field_None [of kvs "''latitude''"] num_field_None [of kvs "''longitude''"]
      num_field_None [of kvs "''latitudeDelta''"] num_field_None [of kvs "''longitudeDelta''"]
    by (auto simp: geofence_box_ok_def required_ok_def)
qed

lemma circle_ok_radius: "geofence_circle_ok kvs \<Longrightarrow> map_of kvs ''radius'' \<noteq> None"
  by (simp add: geofence_circle_ok_def required_ok_def)

text \<open>A geofence that the schema lets pass has one of the two shapes.\<close>

lemma to_geofence_None_invalid: "to_geofence g = None \<Longrightarrow> \<not> geofence_ok g"
proof (cases g)
  case (JObj kvs)
  assume n: "to_geofence g = None"
  have "\<not> geofence_circle_ok kvs"
  proof
    assume c: "geofence_circle_ok kvs"
    from circle_ok_fields [OF c] circle_ok_radius [OF c] n JObj show False by auto
  qed
  moreover have "\<not> geofence_box_ok kvs"
  proof
    assume c: "geofence_box_ok kvs"
    from box_ok_fields [OF c] n JObj show False by auto
  qed
  ultimately show ?thesis using JObj by (simp add: oneOf2_def)
qed simp_all

text \<open>
  Claim C8. A search with malformed options, an unparseable geofence or a negative limit,
  is to be rejected with a ValidationError before any scoring. The handler does so for a
  limit and for a geofence that parses but has neither shape (the lemmas above). It
  does not where the text of the geofence does not parse: \<open>JSON.parse\<close> runs before the
  schema is consulted and nothing catches what it throws, so the request ends in a
  SyntaxError, not in the 400 of the validation.
\<close>

theorem unparseable_geofence_throws:
  "search_handler example_env [smile_doc] [0x1F600] (no_params\<lparr>p_geofence := Unparseable\<rparr>)
     = Inl SyntaxError"
  by (simp add: search_handler_def no_params_def)

section \<open>Ordering and truncation\<close>

text \<open>The definitions that evaluating a search on concrete data unfolds.\<close>

lemmas search_defs =
  search_def policy_stage_def filtered_def combined_def combine_stage_def fuzzy_stage_def
  geo_stage_def geolib_call_def ngram_stage_def ngram_block_def ngram_term_def ngram_acc_def
  ngram_step_def measure1_stage_def
  tfidfs_def kws_def subsets_def querySplitted_def subsetLengthSum_def subset_matches_def
  str_includes_def stripVariationSelectors_def isVariationSelector_def isAscii_def
  filterIsPointInside_def filterIsPointInCircle_def filterSmallMatch_def filterSmallScore_def
  filterPerfectMatch_def size_matches_def js_take_def js_div_def js_eq_def js_gt_def js_max_def
  nat_max_def to_entry_def convertEmojiToKeywords_def
  stringSize_def stringToArray.simps rsSeq_len_def var_mod_len_def opt_len_def
  rsFitz_def rsCombo_def rsModifier_def rsVar_def rsRegional_def rsZWJ_def rsAstral_def
  rsNonAstral_def Let_def sublist_code

lemma jrank_inj [simp]: "jrank a = jrank b \<longleftrightarrow> a = b"
  by (cases a; cases b; simp)

lemma policy_stage_sorted:
  "sorted_wrt (\<lambda>a b. jrank (measure_sum b) \<le> jrank (measure_sum a)) (policy_stage opts result)"
proof -
  let ?f = "\<lambda>t. jrank (measure_sum t)"
  have "sorted_wrt (\<lambda>a b. ?f a \<le> ?f b) (sort_key ?f (filtered opts result))"
    using sorted_sort_key [of ?f] by (simp add: sorted_map)
  then have "sorted_wrt (\<lambda>a b. ?f b \<le> ?f a) (rev (sort_key ?f (filtered opts result)))"
    by (simp add: sorted_wrt_rev)
  then show ?thesis
    unfolding policy_stage_def js_take_def by (rule sorted_wrt_take)
qed

lemma policy_stage_ties:
  "prefix (filter (\<lambda>t. measure_sum t = k) (policy_stage opts result))
          (rev (filter (\<lambda>t. measure_sum t = k) (filtered opts result)))"
proof -
  let ?f = "\<lambda>t. jrank (measure_sum t)"
  let ?c = "filtered opts result"
  have "filter (\<lambda>t. ?f t = jrank k) (sort_key ?f ?c) = filter (\<lambda>t. ?f t = jrank k) ?c"
    by (rule sort_key_stable)
  then have "filter (\<lambda>t. measure_sum t = k) (rev (sort_key ?f ?c)) = rev (filter (\<lambda>t. measure_sum t = k) ?c)"
    by (simp flip: rev_filter)
  moreover have "prefix (policy_stage opts result) (rev (sort_key ?f ?c))"
    by (simp add: policy_stage_def js_take_def take_is_prefix)
  ultimately show ?thesis
    by (metis filter_mono_prefix)
qed

lemma policy_stage_length:
  "0 \<le> limit opts \<Longrightarrow> real (length (policy_stage opts result)) \<le> limit opts"
proof -
  assume "0 \<le> limit opts"
  then have "real (nat \<lfloor>limit opts\<rfloor>) \<le> limit opts"
    by (simp add: of_nat_nat)
  moreover have "length (policy_stage opts result) \<le> nat \<lfloor>limit opts\<rfloor>"
    by (simp add: policy_stage_def js_take_def)
  ultimately show ?thesis by linarith
qed

lemma policy_stage_subset_filtered: "set (policy_stage opts result) \<subseteq> set (filtered opts result)"
  unfolding policy_stage_def js_take_def
  by (metis set_rev set_sort set_take_subset)

lemma policy_stage_subset: "set (policy_stage opts result) \<subseteq> set result"
  using policy_stage_subset_filtered [of opts result] by (auto simp: filtered_def)

lemma combined_truthy:
  "combined e s query opts = Inr cmb \<Longrightarrow> t \<in> set cmb \<Longrightarrow> truthy (measure_sum t)"
  by (auto dest!: combined_Inr simp: combine_stage_def)

lemma truthy_not_NaN: "truthy x \<Longrightarrow> x \<noteq> NaN"
  by (cases x) simp_all

text \<open>
  Claim C3, amended. The output of a search is sorted by descending combined measure
  (\<open>jrank\<close> orders the measures as numbers, and no measure of the output is \<open>NaN\<close>).
  The ascending sort is stable and its result is then reversed, so the entries with one
  and the same combined measure come out in the reverse of the order in which the filters
  left them, cut where the limit cuts. For a limit that is not negative the output has at
  most \<open>limit\<close> entries. This holds of every search that returns, and without a
  geofence every search does.
\<close>

theorem search_order:
  "(search e s query opts = Inr out \<longrightarrow>
      sorted_wrt (\<lambda>a b. jrank (measure_sum b) \<le> jrank (measure_sum a)) out
      \<and> (\<forall>t \<in> set out. measure_sum t \<noteq> NaN)
      \<and> (\<exists>cmb. combined e s query opts = Inr cmb
            \<and> (\<forall>k. prefix (filter (\<lambda>t. measure_sum t = k) out)
                         (rev (filter (\<lambda>t. measure_sum t = k) (filtered opts cmb)))))
      \<and> (0 \<le> limit opts \<longrightarrow> real (length out) \<le> limit opts))
   \<and> (geofence opts = None \<longrightarrow> (\<exists>out. search e s query opts = Inr out))"
proof -
  have "sorted_wrt (\<lambda>a b. jrank (measure_sum b) \<le> jrank (measure_sum a)) out
      \<and> (\<forall>t \<in> set out. measure_sum t \<noteq> NaN)
      \<and> (\<exists>cmb. combined e s query opts = Inr cmb
            \<and> (\<forall>k. prefix (filter (\<lambda>t. measure_sum t = k) out)
                         (rev (filter (\<lambda>t. measure_sum t = k) (filtered opts cmb)))))
      \<and> (0 \<le> limit opts \<longrightarrow> real (length out) \<le> limit opts)"
    if "search e s query opts = Inr out"
  proof -
    from that obtain cmb where c: "combined e s query opts = Inr cmb"
      and out: "out = policy_stage opts cmb"
      by (auto simp: search_Inr)
    have "\<forall>t \<in> set out. measure_sum t \<noteq> NaN"
      using combined_truthy [OF c] policy_stage_subset [of opts cmb] truthy_not_NaN
      unfolding out by blast
    with c show ?thesis
      unfolding out
      using policy_stage_sorted policy_stage_ties policy_stage_length by blast
  qed
  with search_no_fence show ?thesis by blast
qed

text \<open>
  The claim as written fails: two documents with the same combined measure are returned
  in the reverse of their encounter order.
\<close>

theorem ties_come_out_reversed:
  "map_sum id (\<lambda>cmb. map emoji (filtered default_options cmb))
       (combined example_env [smile_doc, party_doc] [0x1F600] default_options)
     = Inr [[0x1F600], [0x1F600, 0x1F389]]
   \<and> map_sum id (map emoji) (search example_env [smile_doc, party_doc] [0x1F600] default_options)
     = Inr [[0x1F600, 0x1F389], [0x1F600]]
   \<and> map_sum id (map measure_sum)
       (search example_env [smile_doc, party_doc] [0x1F600] default_options)
     = Inr [Num 1, Num 1]"
  by (simp add: search_defs smile_doc_def party_doc_def example_env_def)

theorem search_order_witness:
  "(0::real) \<le> limit default_options
   \<and> geofence default_options = None
   \<and> real (length (policy_stage default_options
          (combine_stage (fuzzy_stage False
             (ngram_stage False [0x1F600] (measure1_stage example_env [smile_doc, party_doc] [0x1F600])))))) \<le> 50
   \<and> list_all (\<lambda>t. measure_sum t \<noteq> NaN)
       (policy_stage default_options
          (combine_stage (fuzzy_stage False
             (ngram_stage False [0x1F600] (measure1_stage example_env [smile_doc, party_doc] [0x1F600])))))"
proof -
  let ?cmb = "combine_stage (fuzzy_stage False
             (ngram_stage False [0x1F600] (measure1_stage example_env [smile_doc, party_doc] [0x1F600])))"
  have s: "search example_env [smile_doc, party_doc] [0x1F600] default_options
           = Inr (policy_stage default_options ?cmb)"
    by (simp add: search_def combined_no_fence)
  from search_order [of example_env "[smile_doc, party_doc]" "[0x1F600]" default_options
      "policy_stage default_options ?cmb"] s
  have "(\<forall>t \<in> set (policy_stage default_options ?cmb). measure_sum t \<noteq> NaN)
        \<and> real (length (policy_stage default_options ?cmb)) \<le> 50"
    by simp
  then show ?thesis by (simp add: list_all_iff)
qed

section \<open>The subsets of a query\<close>

lemma subsets_unordered_eq: "subsets False query = stringToArray query"
  by (simp add: subsets_def querySplitted_def)







section \<open>The empty query\<close>

lemma isAscii_Nil [simp]: "isAscii []"
  by (simp add: isAscii_def)

lemma subsetLengthSum_member_pos:
  assumes "sub \<in> set subs" and "sub \<noteq> []"
  shows "0 < subsetLengthSum subs"
proof -
  have "stringSize sub \<in> set (map stringSize subs)" using assms(1) by simp
  then have "stringSize sub \<le> sum_list (map stringSize subs)"
    by (rule member_le_sum_list) simp
  with stringSize_pos [OF assms(2)] show ?thesis by (simp add: subsetLengthSum_def)
qed

lemma subsets_nonempty:
  assumes "sub \<in> set (subsets po query)"
  shows "sub \<noteq> []"
proof (cases po)
  case False
  with assms show ?thesis by (auto simp: subsets_unordered_eq dest: stringToArray_nonempty)
next
  case True
  let ?qs = "querySplitted query"
  from assms True obtain start offset where
    st: "start < length ?qs" and sub: "sub = concat (take (offset + 1) (drop start ?qs))"
    by (auto simp: subsets_def Let_def)
  then have "drop start ?qs = ?qs ! start # drop (Suc start) ?qs"
    by (simp add: Cons_nth_drop_Suc)
  moreover have "?qs ! start \<noteq> []"
    using st stringToArray_nonempty [of "?qs ! start" query] by (simp add: querySplitted_def)
  ultimately show ?thesis using sub by simp
qed

lemma subsets_first:
  assumes "query \<noteq> []"
  shows "\<exists>sub. sub \<in> set (subsets po query)"
proof (cases po)
  case False
  with assms show ?thesis
    by (cases "stringToArray query") (auto simp: subsets_unordered_eq stringToArray_Nil_iff)
next
  case True
  let ?qs = "querySplitted query"
  let ?n = "length ?qs"
  from assms obtain n' where n: "?n = Suc n'"
    by (cases ?n) (auto simp: querySplitted_def stringToArray_Nil_iff)
  have "(0, 1) \<in> set (concat (map (\<lambda>start. map (\<lambda>offset. (start, offset + 1)) [0..<?n - start]) [0..<?n]))"
    unfolding n by (simp add: upt_conv_Cons del: upt_Suc)
  then have "(\<lambda>(start, len). concat (take len (drop start ?qs))) (0, 1) \<in>
      (\<lambda>(start, len). concat (take len (drop start ?qs))) `
      set (concat (map (\<lambda>start. map (\<lambda>offset. (start, offset + 1)) [0..<?n - start]) [0..<?n]))"
    by (rule imageI)
  with True show ?thesis by (auto simp: subsets_def Let_def)
qed

lemma subsetLengthSum_pos:
  assumes "\<not> isAscii query"
  shows "0 < subsetLengthSum (subsets po query)"
proof -
  from assms have "query \<noteq> []" by auto
  from subsets_first [OF this] obtain sub where s: "sub \<in> set (subsets po query)" by blast
  from subsetLengthSum_member_pos [OF s subsets_nonempty [OF s]] show ?thesis .
qed

lemma js_add_zero: "js_add x (Num 0) = x"
  by (cases x) simp_all

text \<open>
  Claim C4. For the empty query \<open>measure2\<close> counts as 0 and no division by zero is
  performed. The division by \<open>subsetLengthSum\<close> stands in the n-gram block, which is
  guarded by the test for a non-ASCII query and so is skipped for the empty query: no
  term gets a \<open>measure2\<close>, \<open>measure2 || 0\<close> is 0, and the combined measure is what
  \<open>measure1\<close> contributes. A query that does reach the division has a non-ASCII
  character and therefore a positive \<open>subsetLengthSum\<close>.
\<close>

theorem empty_query_counts_zero:
  "ngram_stage po [] result = result
   \<and> (combined e s [] opts = Inr cmb \<longrightarrow>
        (\<forall>t \<in> set cmb. or_zero (measure2 t) = Num 0
                        \<and> measure_sum t = or_zero (Some (measure1 t))))
   \<and> (\<not> isAscii query \<longrightarrow> 0 < subsetLengthSum (subsets po query))"
proof -
  have "or_zero (measure2 t) = Num 0 \<and> measure_sum t = or_zero (Some (measure1 t))"
    if c: "combined e s [] opts = Inr cmb" and t: "t \<in> set cmb" for t
  proof -
    have m: "measure2 t = None" using combined_ascii [OF isAscii_Nil c t] .
    from combined_Inr [OF c] t obtain u where "t = to_entry u"
      by (auto dest: combine_stage_source)
    with m show ?thesis by (simp add: js_add_zero)
  qed
  with subsetLengthSum_pos [of query po] show ?thesis
    by (simp add: ngram_stage_def)
qed

theorem empty_query_counts_zero_witness:
  "list_all (\<lambda>t. or_zero (measure2 t) = Num 0 \<and> measure_sum t = or_zero (Some (measure1 t)))
     (combine_stage (fuzzy_stage True (measure1_stage weighted_env [grin] [])))
   \<and> combine_stage (fuzzy_stage True (measure1_stage weighted_env [grin] [])) \<noteq> []
   \<and> \<not> isAscii [0x1F600, 0x1F389]
   \<and> 0 < subsetLengthSum (subsets True [0x1F600, 0x1F389])"
proof -
  let ?o = "default_options\<lparr>enableFuzzySearch := True\<rparr>"
  let ?cmb = "combine_stage (fuzzy_stage True (measure1_stage weighted_env [grin] []))"
  have c: "combined weighted_env [grin] [] ?o = Inr ?cmb"
    by (simp add: combined_no_fence ngram_stage_def)
  have n: "\<not> isAscii [0x1F600, 0x1F389]" by (simp add: isAscii_def)
  from empty_query_counts_zero [of True _ weighted_env "[grin]" ?o ?cmb "[0x1F600, 0x1F389]"] c n
  have "(\<forall>t \<in> set ?cmb. or_zero (measure2 t) = Num 0
                        \<and> measure_sum t = or_zero (Some (measure1 t)))
        \<and> 0 < subsetLengthSum (subsets True [0x1F600, 0x1F389])"
    by blast
  moreover have "?cmb \<noteq> []"
    by (simp add: search_defs weighted_env_def grin_def)
  ultimately show ?thesis using n by (simp add: list_all_iff)
qed

section \<open>The normalisation of measure1\<close>

lemma measure1_stage_measure1:
  "map measure1 (measure1_stage e s query)
     = map (\<lambda>m. js_div m (sum_list (tfidfs e s query))) (tfidfs e s query)"
proof -
  have "map (\<lambda>x. js_div (snd x) c) (zip s ms) = map (\<lambda>m. js_div m c) ms"
    if "length s = length ms" for c and ms :: "real list"
    using that by (induction s ms rule: list_induct2) simp_all
  then show ?thesis
    by (simp add: measure1_stage_def Let_def split_def comp_def)
qed

lemma sum_list_divide:
  fixes ms :: "real list"
  shows "(\<Sum>m\<leftarrow>ms. m / c) = sum_list ms / c"
  by (induction ms) (simp_all add: add_divide_distrib)

lemma normalised_sum:
  fixes ms :: "real list"
  assumes "sum_list ms \<noteq> 0"
  shows "(\<Sum>m\<leftarrow>ms. m / sum_list ms) = 1"
  using assms by (simp add: sum_list_divide)

lemma ngram_stage_source:
  "t \<in> set (ngram_stage po query result) \<Longrightarrow>
     \<exists>u \<in> set result. measure1 t = measure1 u \<and> emoji t = emoji u \<and> meta t = meta u"
  by (auto simp: ngram_stage_def ngram_block_def ngram_term_def Let_def split: if_splits)

lemma search_fuzzy_source:
  assumes "enableFuzzySearch opts" and "search e s query opts = Inr out" and "t \<in> set out"
  shows "\<exists>u \<in> set (measure1_stage e s query).
           emoji t = emoji u \<and> meta t = meta u \<and> measure1 t = measure1 u"
proof -
  from assms(2) obtain cmb where c: "combined e s query opts = Inr cmb"
    and out: "out = policy_stage opts cmb"
    by (auto simp: search_Inr)
  from out assms(3) have "t \<in> set cmb" using policy_stage_subset by blast
  moreover from combined_Inr [OF c] obtain kept where
    k: "geo_stage e (geofence opts)
          (ngram_stage (persistOrder opts) query (measure1_stage e s query)) = Inr kept"
    and cmb: "cmb = combine_stage (fuzzy_stage (enableFuzzySearch opts) kept)"
    by blast
  ultimately obtain u where u: "u \<in> set kept" and tu: "t = to_entry u"
    using assms(1) by (auto simp: fuzzy_stage_def dest: combine_stage_source)
  from u geo_stage_subset [OF k]
  have "u \<in> set (ngram_stage (persistOrder opts) query (measure1_stage e s query))"
    by blast
  then obtain v where "v \<in> set (measure1_stage e s query)"
    "measure1 u = measure1 v" "emoji u = emoji v" "meta u = meta v"
    by (blast dest: ngram_stage_source)
  with tu show ?thesis by auto
qed

text \<open>
  Claim C5, amended. The \<open>measure1\<close> values are normalised over all documents of the
  database, before any filtering: where the raw measures do not sum to 0, each is the raw
  measure divided by that sum, and over the whole unfiltered list they sum to 1. With
  \<open>enableFuzzySearch\<close> on, every returned entry is one of the entries of that list, with
  its emoji sequence, its metadata and its \<open>measure1\<close>; being a filtered and truncated
  part of the list, the returned entries need not have values that sum to 1.
\<close>

theorem measure1_normalised_before_filtering:
  "(sum_list (tfidfs e s query) \<noteq> 0 \<longrightarrow>
      map measure1 (measure1_stage e s query)
        = map (\<lambda>m. Num (m / sum_list (tfidfs e s query))) (tfidfs e s query)
      \<and> (\<Sum>m\<leftarrow>tfidfs e s query. m / sum_list (tfidfs e s query)) = 1)
   \<and> (enableFuzzySearch opts \<and> search e s query opts = Inr out \<longrightarrow>
        (\<forall>t \<in> set out. \<exists>u \<in> set (measure1_stage e s query).
            emoji t = emoji u \<and> meta t = meta u \<and> measure1 t = measure1 u))"
proof -
  have "map measure1 (measure1_stage e s query)
        = map (\<lambda>m. Num (m / sum_list (tfidfs e s query))) (tfidfs e s query)"
    if "sum_list (tfidfs e s query) \<noteq> 0"
    using that by (simp add: measure1_stage_measure1 js_div_def)
  moreover have "\<forall>t \<in> set out. \<exists>u \<in> set (measure1_stage e s query).
            emoji t = emoji u \<and> meta t = meta u \<and> measure1 t = measure1 u"
    if "enableFuzzySearch opts" "search e s query opts = Inr out"
    using search_fuzzy_source [OF that] by blast
  ultimately show ?thesis using normalised_sum by blast
qed

theorem measure1_normalised_before_filtering_witness:
  "sum_list (tfidfs weighted_env [grin, grin_party] [0x1F600, 0x1F389]) = 14
   \<and> map measure1 (measure1_stage weighted_env [grin, grin_party] [0x1F600, 0x1F389])
       = [Num (2 / 7), Num (5 / 7)]
   \<and> (\<exists>out. search weighted_env [grin, grin_party] [0x1F600, 0x1F389]
              (default_options\<lparr>enableFuzzySearch := True\<rparr>) = Inr out
         \<and> out \<noteq> []
         \<and> list_all (\<lambda>t. list_ex (\<lambda>u. emoji t = emoji u \<and> meta t = meta u
                                        \<and> measure1 t = measure1 u)
               (measure1_stage weighted_env [grin, grin_party] [0x1F600, 0x1F389])) out)"
proof -
  let ?o = "default_options\<lparr>enableFuzzySearch := True\<rparr>"
  have s: "sum_list (tfidfs weighted_env [grin, grin_party] [0x1F600, 0x1F389]) = 14"
    by (simp add: tfidfs_def weighted_env_def grin_def grin_party_def)
  obtain out where o: "search weighted_env [grin, grin_party] [0x1F600, 0x1F389] ?o = Inr out"
    using search_no_fence [of ?o weighted_env "[grin, grin_party]" "[0x1F600, 0x1F389]"]
    by auto
  note t = measure1_normalised_before_filtering [of weighted_env "[grin, grin_party]"
      "[0x1F600, 0x1F389]" ?o out]
  have m: "map measure1 (measure1_stage weighted_env [grin, grin_party] [0x1F600, 0x1F389])
       = [Num (2 / 7), Num (5 / 7)]"
    using t [THEN conjunct1] s by (simp add: tfidfs_def weighted_env_def grin_def grin_party_def)
  have f: "enableFuzzySearch ?o" by simp
  from t [THEN conjunct2] f o
  have a: "list_all (\<lambda>t. list_ex (\<lambda>u. emoji t = emoji u \<and> meta t = meta u
                                        \<and> measure1 t = measure1 u)
               (measure1_stage weighted_env [grin, grin_party] [0x1F600, 0x1F389])) out"
    unfolding list_all_iff list_ex_iff by blast
  have "map_sum id (map measure1) (search weighted_env [grin, grin_party] [0x1F600, 0x1F389] ?o)
      = Inr [Num (5 / 7)]"
    by (simp add: search_defs grin_def grin_party_def weighted_env_def)
  with o have "out \<noteq> []" by auto
  with s m o a show ?thesis by blast
qed

text \<open>
  The claim as written fails: two documents share a keyword of the query and so share the
  normalised measure, 2/7 and 5/7; only one of them is a perfect match and is returned.
\<close>

theorem returned_measure1_below_one:
  "map_sum id (map measure1)
     (search weighted_env [grin, grin_party] [0x1F600, 0x1F389]
        (default_options\<lparr>enableFuzzySearch := True\<rparr>)) = Inr [Num (5 / 7)]"
  by (simp add: search_defs grin_def grin_party_def weighted_env_def)

section \<open>The n-gram measure\<close>

lemma ngram_fold_fst:
  "fst (foldl (ngram_step em) acc subs)
     = fst acc + sum_list (map stringSize (filter (subset_matches em) subs))"
  by (induction subs arbitrary: acc) (simp_all add: ngram_step_def)

lemma ngram_fold_set:
  "set (snd (foldl (ngram_step em) acc subs))
     = set (snd acc) \<union> {sub \<in> set subs. subset_matches em sub}"
  by (induction subs arbitrary: acc) (auto simp: ngram_step_def)

lemma ngram_fold_distinct:
  "distinct (snd acc) \<Longrightarrow> distinct (snd (foldl (ngram_step em) acc subs))"
  by (induction subs arbitrary: acc) (simp_all add: ngram_step_def distinct_removeAll)

lemma ngram_acc_total:
  "fst (ngram_acc em subs) = sum_list (map stringSize (filter (subset_matches em) subs))"
  by (simp add: ngram_acc_def ngram_fold_fst)

lemma ngram_acc_matches:
  "length (snd (ngram_acc em subs)) = card {sub \<in> set subs. subset_matches em sub}"
proof -
  have "distinct (snd (ngram_acc em subs))"
    by (simp add: ngram_acc_def ngram_fold_distinct)
  then have "length (snd (ngram_acc em subs)) = card (set (snd (ngram_acc em subs)))"
    by (simp add: distinct_card)
  then show ?thesis by (simp add: ngram_acc_def ngram_fold_set)
qed

lemma full_sum_all_match:
  fixes f :: "'a \<Rightarrow> nat"
  assumes "\<forall>sub \<in> set subs. 0 < f sub"
    and "sum_list (map f (filter P subs)) = sum_list (map f subs)"
  shows "\<forall>sub \<in> set subs. P sub"
  using assms
proof (induction subs)
  case Nil
  then show ?case by simp
next
  case (Cons x xs)
  have le: "sum_list (map f (filter P xs)) \<le> sum_list (map f xs)"
    by (rule sum_list_filter_le_nat)
  have x: "0 < f x" using Cons.prems(1) by simp
  show ?case
  proof (cases "P x")
    case True
    with Cons show ?thesis by simp
  next
    case False
    with Cons.prems(2) le x show ?thesis by simp
  qed
qed

lemma js_div_one: "js_div a b = Num 1 \<longleftrightarrow> b \<noteq> 0 \<and> a = b"
  by (auto simp: js_div_def)

lemma nat_max_from_Some: "nat_max_from (Some c) xs = Some (fold max xs c)"
  by (induction xs arbitrary: c) (simp_all add: max_def)

lemma nat_max_greatest:
  assumes "x \<in> set xs" and "\<forall>y \<in> set xs. y \<le> x"
  shows "nat_max xs = Some x"
proof -
  from assms(1) obtain z zs where xs: "xs = z # zs" by (cases xs) auto
  have "nat_max xs = Some (Max (set xs))"
    using Max.set_eq_fold [of z zs] by (simp add: xs nat_max_def nat_max_from_Some)
  moreover have "Max (set xs) = x"
    using assms by (intro Max_eqI) auto
  ultimately show ?thesis by simp
qed

lemma ngram_term_fields [simp]:
  "emoji (ngram_term subs u) = emoji u" "meta (ngram_term subs u) = meta u"
  "measure1 (ngram_term subs u) = measure1 u"
  "measure2 (ngram_term subs u)
     = Some (js_div (real (fst (ngram_acc (emoji u) subs))) (real (subsetLengthSum subs)))"
  "matches (ngram_term subs u) = Some (snd (ngram_acc (emoji u) subs))"
  by (simp_all add: ngram_term_def Let_def)

lemma combined_ngram:
  assumes "\<not> isAscii query" and "combined e s query opts = Inr cmb" and "t \<in> set cmb"
  shows "measure2 t = Some (js_div (real (fst (ngram_acc (emoji t) (subsets (persistOrder opts) query))))
                                   (real (subsetLengthSum (subsets (persistOrder opts) query))))
         \<and> matches t = Some (snd (ngram_acc (emoji t) (subsets (persistOrder opts) query)))"
proof -
  let ?subs = "subsets (persistOrder opts) query"
  from combined_Inr [OF assms(2)] obtain kept where
    k: "geo_stage e (geofence opts)
          (ngram_stage (persistOrder opts) query (measure1_stage e s query)) = Inr kept"
    and c: "cmb = combine_stage (fuzzy_stage (enableFuzzySearch opts) kept)"
    by blast
  from assms(3) c obtain u where "u \<in> set (fuzzy_stage (enableFuzzySearch opts) kept)"
      and tu: "t = to_entry u"
    by (blast dest: combine_stage_source)
  then obtain v where "v \<in> set kept"
      and uv: "measure2 u = measure2 v" "matches u = matches v" "emoji u = emoji v"
    by (blast dest: fuzzy_stage_source)
  then have "v \<in> set (ngram_stage (persistOrder opts) query (measure1_stage e s query))"
    using geo_stage_subset [OF k] by blast
  then obtain w where "v = ngram_term ?subs w"
    using assms(1) by (auto simp: ngram_stage_def ngram_block_def)
  with tu uv show ?thesis by simp
qed

lemma combined_size_matches:
  assumes "\<not> isAscii query" and "combined e s query opts = Inr cmb" and "t \<in> set cmb"
  shows "size_matches t = card {sub \<in> set (subsets (persistOrder opts) query). subset_matches (emoji t) sub}"
  using combined_ngram [OF assms] by (simp add: size_matches_def ngram_acc_matches)

lemma perfect_all_matched:
  assumes "combined e s query opts = Inr cmb" and "t \<in> set cmb" and "measure2 t = Some (Num 1)"
  shows "\<not> isAscii query"
    and "\<forall>sub \<in> set (subsets (persistOrder opts) query). subset_matches (emoji t) sub"
proof -
  show na: "\<not> isAscii query"
  proof
    assume "isAscii query"
    from combined_ascii [OF this assms(1,2)] assms(3) show False by simp
  qed
  let ?subs = "subsets (persistOrder opts) query"
  from combined_ngram [OF na assms(1,2)] assms(3)
  have "js_div (real (fst (ngram_acc (emoji t) ?subs))) (real (subsetLengthSum ?subs)) = Num 1"
    by simp
  then have "fst (ngram_acc (emoji t) ?subs) = subsetLengthSum ?subs"
    by (simp add: js_div_one)
  then have eq: "sum_list (map stringSize (filter (subset_matches (emoji t)) ?subs))
      = sum_list (map stringSize ?subs)"
    by (simp add: ngram_acc_total subsetLengthSum_def)
  have ne: "\<forall>sub \<in> set ?subs. 0 < stringSize sub"
    using subsets_nonempty stringSize_pos by blast
  from full_sum_all_match [OF ne eq]
  show "\<forall>sub \<in> set ?subs. subset_matches (emoji t) sub" .
qed

lemma perfect_has_most_matches:
  assumes "combined e s query opts = Inr cmb" and "t \<in> set cmb" and "measure2 t = Some (Num 1)"
  shows "Some (size_matches t) = nat_max (map size_matches cmb)"
proof -
  let ?subs = "subsets (persistOrder opts) query"
  note na = perfect_all_matched(1) [OF assms]
  have "{sub \<in> set ?subs. subset_matches (emoji t) sub} = set ?subs"
    using perfect_all_matched(2) [OF assms] by auto
  then have full: "size_matches t = card (set ?subs)"
    using combined_size_matches [OF na assms(1,2)] by simp
  have "size_matches u \<le> card (set ?subs)" if "u \<in> set cmb" for u
    unfolding combined_size_matches [OF na assms(1) that] by (rule card_mono) auto
  with full have "\<forall>y \<in> set (map size_matches cmb). y \<le> size_matches t"
    by auto
  moreover have "size_matches t \<in> set (map size_matches cmb)"
    using assms(2) by simp
  ultimately show ?thesis by (simp add: nat_max_greatest)
qed

section \<open>The result filters\<close>

lemma perfect_filter_makes_match_filter_idle:
  assumes "onlyKeepPerfectMatch o1" and "combined e s query opts = Inr cmb"
  shows "filter (filterSmallMatch o2 cmb) (filter (filterPerfectMatch o1) cmb)
         = filter (filterPerfectMatch o1) cmb"
proof -
  have "filterSmallMatch o2 cmb t" if "t \<in> set cmb" "filterPerfectMatch o1 t" for t
  proof -
    from that(2) assms(1) have "measure2 t = Some (Num 1)"
      by (auto simp: filterPerfectMatch_def js_eq_def split: option.splits)
    from perfect_has_most_matches [OF assms(2) that(1) this] show ?thesis
      by (simp add: filterSmallMatch_def)
  qed
  then show ?thesis by (intro filter_True) simp
qed

text \<open>
  Claim C2, amended. The three filters are applied one after the other, each on what the
  one before kept. With \<open>onlyKeepPerfectMatch\<close> on, the value of
  \<open>truncateSmallMatches\<close> does not change the result: a perfect match has the largest
  match list there is. With \<open>onlyKeepPerfectMatch\<close> off and both other options on, both
  filters are applied: every returned entry has the largest match list and the greatest
  combined measure of the list that entered the filters.
\<close>

theorem filters_are_applied_in_sequence:
  "(onlyKeepPerfectMatch opts \<longrightarrow>
      search e s query (opts\<lparr>truncateSmallMatches := b\<rparr>) = search e s query opts)
   \<and> (\<not> onlyKeepPerfectMatch opts \<and> truncateSmallMatches opts \<and> truncateSmallScore opts
        \<and> search e s query opts = Inr out \<longrightarrow>
        (\<exists>cmb. combined e s query opts = Inr cmb
           \<and> (\<forall>t \<in> set out.
                 Some (size_matches t) = nat_max (map size_matches cmb)
                 \<and> js_max (map measure_sum cmb) = Some (measure_sum t))))"
proof -
  have a: "search e s query (opts\<lparr>truncateSmallMatches := b\<rparr>) = search e s query opts"
    if p: "onlyKeepPerfectMatch opts"
  proof -
    let ?o = "opts\<lparr>truncateSmallMatches := b\<rparr>"
    have c: "combined e s query ?o = combined e s query opts"
      by (simp add: combined_def split: sum.splits)
    show ?thesis
    proof (cases "combined e s query opts")
      case (Inl err)
      with c show ?thesis by (simp add: search_def)
    next
      case (Inr cmb)
      have "filtered ?o cmb = filter (filterSmallScore ?o cmb) (filter (filterPerfectMatch ?o) cmb)"
        using perfect_filter_makes_match_filter_idle [of ?o e s query opts cmb ?o] p Inr
        by (simp add: filtered_def)
      also have "\<dots> = filter (filterSmallScore opts cmb) (filter (filterPerfectMatch opts) cmb)"
        by (simp add: filterSmallScore_def filterPerfectMatch_def)
      also have "\<dots> = filtered opts cmb"
        using perfect_filter_makes_match_filter_idle [of opts e s query opts cmb opts] p Inr
        by (simp add: filtered_def)
      finally show ?thesis using c Inr by (simp add: search_def policy_stage_def)
    qed
  qed
  have b: "\<exists>cmb. combined e s query opts = Inr cmb
           \<and> (\<forall>t \<in> set out.
                 Some (size_matches t) = nat_max (map size_matches cmb)
                 \<and> js_max (map measure_sum cmb) = Some (measure_sum t))"
    if m: "truncateSmallMatches opts" "truncateSmallScore opts"
      and o: "search e s query opts = Inr out"
  proof -
    from o obtain cmb where c: "combined e s query opts = Inr cmb"
      and out: "out = policy_stage opts cmb"
      by (auto simp: search_Inr)
    have "Some (size_matches t) = nat_max (map size_matches cmb)
          \<and> js_max (map measure_sum cmb) = Some (measure_sum t)" if "t \<in> set out" for t
    proof -
      from that out have "t \<in> set (filtered opts cmb)"
        using policy_stage_subset_filtered by blast
      with m show ?thesis
        by (auto simp: filtered_def filterSmallMatch_def filterSmallScore_def js_eq_def
            split: option.splits)
    qed
    with c show ?thesis by blast
  qed
  from a b show ?thesis by blast
qed

text \<open>
  The claim as written fails: with \<open>onlyKeepPerfectMatch\<close> off and
  \<open>truncateSmallMatches\<close> on, turning \<open>truncateSmallScore\<close> on removes an entry
  that the match filter kept.
\<close>

theorem score_filter_after_match_filter:
  "map_sum id (map emoji)
     (search example_env [smile_doc, confetti_doc] [0x1F600, 0x1F600, 0x1F389]
       (default_options\<lparr>onlyKeepPerfectMatch := False, truncateSmallScore := True\<rparr>))
     = Inr [[0x1F600]]
   \<and> map_sum id (map emoji)
     (search example_env [smile_doc, confetti_doc] [0x1F600, 0x1F600, 0x1F389]
       (default_options\<lparr>onlyKeepPerfectMatch := False, truncateSmallScore := False\<rparr>))
     = Inr [[0x1F600], [0x1F389]]"
  by (simp add: search_defs smile_doc_def confetti_doc_def example_env_def)

text \<open>
  With \<open>onlyKeepPerfectMatch\<close> on, the score filter is applied all the same: of two
  perfect matches with different \<open>measure1\<close> it keeps the greater only.
\<close>

lemma score_filter_under_perfect_match:
  "map_sum id (map emoji)
     (search weighted_env [grin, grin_twice] [0x1F600]
       (default_options\<lparr>enableFuzzySearch := True, truncateSmallScore := True\<rparr>))
     = Inr [[0x1F600, 0x1F600]]
   \<and> map_sum id (map emoji)
     (search weighted_env [grin, grin_twice] [0x1F600]
       (default_options\<lparr>enableFuzzySearch := True\<rparr>))
     = Inr [[0x1F600, 0x1F600], [0x1F600]]"
  by (simp add: search_defs grin_def grin_twice_def weighted_env_def)

theorem filters_are_applied_in_sequence_witness:
  "search example_env [smile_doc, party_doc] [0x1F600] (default_options\<lparr>truncateSmallMatches := False\<rparr>)
     = search example_env [smile_doc, party_doc] [0x1F600] default_options
   \<and> (\<exists>out cmb.
        search example_env [smile_doc, confetti_doc] [0x1F600, 0x1F600, 0x1F389]
          (default_options\<lparr>onlyKeepPerfectMatch := False, truncateSmallScore := True\<rparr>) = Inr out
        \<and> combined example_env [smile_doc, confetti_doc] [0x1F600, 0x1F600, 0x1F389]
          (default_options\<lparr>onlyKeepPerfectMatch := False, truncateSmallScore := True\<rparr>) = Inr cmb
        \<and> out \<noteq> []
        \<and> list_all (\<lambda>t. Some (size_matches t) = nat_max (map size_matches cmb)
                        \<and> js_max (map measure_sum cmb) = Some (measure_sum t)) out)"
proof -
  let ?o = "default_options\<lparr>onlyKeepPerfectMatch := False, truncateSmallScore := True\<rparr>"
  let ?s = "[smile_doc, confetti_doc]"
  let ?q = "[0x1F600, 0x1F600, 0x1F389]"
  have a: "search example_env [smile_doc, party_doc] [0x1F600]
             (default_options\<lparr>truncateSmallMatches := False\<rparr>)
           = search example_env [smile_doc, party_doc] [0x1F600] default_options"
    using filters_are_applied_in_sequence
      [of default_options example_env "[smile_doc, party_doc]" "[0x1F600]" False, THEN conjunct1]
    by simp
  obtain out where o: "search example_env ?s ?q ?o = Inr out"
    using search_no_fence [of ?o example_env ?s ?q] by auto
  have h: "\<not> onlyKeepPerfectMatch ?o \<and> truncateSmallMatches ?o \<and> truncateSmallScore ?o"
    by simp
  from filters_are_applied_in_sequence [of ?o example_env ?s ?q _ out, THEN conjunct2] h o
  obtain cmb where c: "combined example_env ?s ?q ?o = Inr cmb"
    and l: "list_all (\<lambda>t. Some (size_matches t) = nat_max (map size_matches cmb)
                        \<and> js_max (map measure_sum cmb) = Some (measure_sum t)) out"
    unfolding list_all_iff by blast
  have "map_sum id (map emoji) (search example_env ?s ?q ?o) = Inr [[0x1F600]]"
    by (simp add: search_defs smile_doc_def confetti_doc_def example_env_def)
  with o have "out \<noteq> []" by auto
  with a o c l show ?thesis by blast
qed

section \<open>Searching for a stored sequence\<close>

lemma measure1_stage_member:
  assumes "d \<in> set s"
  shows "\<exists>u \<in> set (measure1_stage e s query).
           emoji u = doc_emoji d \<and> meta u = doc_meta d \<and> measure2 u = None"
proof -
  from assms obtain i where i: "i < length s" "s ! i = d"
    by (auto simp: in_set_conv_nth)
  let ?ms = "tfidfs e s query"
  have "(d, ?ms ! i) \<in> set (zip s ?ms)"
    using i by (auto simp: set_zip)
  then show ?thesis
    unfolding measure1_stage_def Let_def by (force simp: split_def)
qed

lemma sublist_filter: "sublist xs ys \<Longrightarrow> sublist (filter P xs) (filter P ys)"
proof -
  assume "sublist xs ys"
  then obtain ps ss where "ys = ps @ xs @ ss" by (auto simp: sublist_def)
  then have "filter P ys = filter P ps @ filter P xs @ filter P ss" by simp
  then show ?thesis unfolding sublist_def by blast
qed

lemma sublist_concat_member: "x \<in> set xs \<Longrightarrow> sublist x (concat xs)"
proof -
  assume "x \<in> set xs"
  then obtain as bs where "xs = as @ x # bs" by (auto dest: split_list)
  then have "concat xs = concat as @ x @ concat bs" by simp
  then show ?thesis unfolding sublist_def by blast
qed

lemma own_characters_match:
  "\<forall>sub \<in> set (subsets False query). subset_matches query sub"
proof
  fix sub assume "sub \<in> set (subsets False query)"
  then have "sublist sub (concat (stringToArray query))"
    by (simp add: subsets_unordered_eq sublist_concat_member)
  then have "sublist sub query" by (simp add: concat_stringToArray)
  then show "subset_matches query sub"
    by (simp add: subset_matches_def str_includes_def stripVariationSelectors_def sublist_filter)
qed

lemma own_query_is_perfect:
  assumes "\<not> isAscii query"
  shows "js_div (real (fst (ngram_acc query (subsets False query))))
                (real (subsetLengthSum (subsets False query))) = Num 1"
proof -
  have "filter (subset_matches query) (subsets False query) = subsets False query"
    using own_characters_match by (intro filter_True)
  then have "fst (ngram_acc query (subsets False query)) = subsetLengthSum (subsets False query)"
    by (simp add: ngram_acc_total subsetLengthSum_def)
  moreover have "0 < subsetLengthSum (subsets False query)"
    using assms by (rule subsetLengthSum_pos)
  ultimately show ?thesis by (simp add: js_div_one)
qed

lemma default_combined:
  "combined e s query default_options
     = Inr (combine_stage (fuzzy_stage False (ngram_stage False query (measure1_stage e s query))))"
  by (simp add: combined_no_fence)

lemma exact_query_in_combined:
  assumes "d \<in> set s" and na: "\<not> isAscii (doc_emoji d)"
    and c: "combined e s (doc_emoji d) default_options = Inr cmb"
  shows "\<exists>t \<in> set cmb.
           emoji t = doc_emoji d \<and> meta t = doc_meta d \<and> measure2 t = Some (Num 1)"
proof -
  let ?q = "doc_emoji d"
  from measure1_stage_member [OF assms(1)] obtain u where
    u: "u \<in> set (measure1_stage e s ?q)" "emoji u = ?q" "meta u = doc_meta d"
    by blast
  let ?v = "ngram_term (subsets False ?q) u"
  let ?w = "?v\<lparr>measure1 := Num 0\<rparr>"
  have m2: "measure2 ?w = Some (Num 1)"
    using own_query_is_perfect [OF na] u(2) by simp
  have "?v \<in> set (ngram_stage False ?q (measure1_stage e s ?q))"
    using u(1) na by (simp add: ngram_stage_def ngram_block_def)
  then have "?w \<in> set (fuzzy_stage False (ngram_stage False ?q (measure1_stage e s ?q)))"
    by (simp add: fuzzy_stage_def)
  moreover have "truthy (measure_sum (to_entry ?w))"
    using m2 by simp
  ultimately have "to_entry ?w
      \<in> set (combine_stage (fuzzy_stage False (ngram_stage False ?q (measure1_stage e s ?q))))"
    unfolding combine_stage_def by simp
  with c have "to_entry ?w \<in> set cmb"
    by (simp add: default_combined)
  moreover have "emoji (to_entry ?w) = ?q" "meta (to_entry ?w) = doc_meta d"
    using u(2,3) by simp_all
  ultimately show ?thesis using m2 by (metis to_entry_simps(4))
qed

text \<open>
  Claim C1, amended. An insertion that passed the schema appends a document with the
  emoji sequence and the metadata of the request. For every document of the database
  whose emoji sequence has a non-ASCII character, as long as at most 50 entries survive
  the result filters, a search for exactly that sequence with the default options returns
  an entry with the document's emoji sequence and metadata and \<open>measure2 = 1\<close>. With the
  default options the search does not throw.
\<close>

theorem exact_query_finds_document:
  "(d \<in> set s \<and> \<not> isAscii (doc_emoji d)
      \<and> combined e s (doc_emoji d) default_options = Inr cmb
      \<and> length (filtered default_options cmb) \<le> 50 \<longrightarrow>
      (\<exists>out. search e s (doc_emoji d) default_options = Inr out
         \<and> (\<exists>t \<in> set out.
               emoji t = doc_emoji d \<and> meta t = doc_meta d \<and> measure2 t = Some (Num 1))))
   \<and> (\<exists>cmb'. combined e s query default_options = Inr cmb')
   \<and> (fst (post e s body) \<noteq> Inl ValidationError \<longrightarrow>
        (\<exists>d'. snd (post e s body) = s @ [d'] \<and> map_of body ''emoji'' = Some (JStr (doc_emoji d'))
              \<and> doc_meta d' = map_of body ''meta''))"
proof -
  have a: "\<exists>out. search e s (doc_emoji d) default_options = Inr out
         \<and> (\<exists>t \<in> set out.
               emoji t = doc_emoji d \<and> meta t = doc_meta d \<and> measure2 t = Some (Num 1))"
    if d: "d \<in> set s" and na: "\<not> isAscii (doc_emoji d)"
      and c: "combined e s (doc_emoji d) default_options = Inr cmb"
      and len: "length (filtered default_options cmb) \<le> 50"
  proof -
    from exact_query_in_combined [OF d na c] obtain t where
      t: "t \<in> set cmb" "emoji t = doc_emoji d" "meta t = doc_meta d" "measure2 t = Some (Num 1)"
      by blast
    have "filterSmallMatch default_options cmb t"
      using perfect_has_most_matches [OF c t(1,4)] by (simp add: filterSmallMatch_def)
    then have "t \<in> set (filtered default_options cmb)"
      using t(1,4) by (simp add: filtered_def filterPerfectMatch_def filterSmallScore_def js_eq_def)
    with len have "t \<in> set (policy_stage default_options cmb)"
      by (simp add: policy_stage_def js_take_def)
    moreover have "search e s (doc_emoji d) default_options = Inr (policy_stage default_options cmb)"
      using c by (simp add: search_def)
    ultimately show ?thesis using t by blast
  qed
  have b: "\<exists>d'. snd (post e s body) = s @ [d'] \<and> map_of body ''emoji'' = Some (JStr (doc_emoji d'))
              \<and> doc_meta d' = map_of body ''meta''"
    if "fst (post e s body) \<noteq> Inl ValidationError"
    using that post_cases [of e s body] by auto
  from a b default_combined [of e s query] show ?thesis by blast
qed

theorem exact_query_finds_document_witness:
  "(\<exists>out. search example_env [smile_doc, party_doc] [0x1F600] default_options = Inr out
      \<and> list_ex (\<lambda>t. emoji t = [0x1F600] \<and> meta t = None \<and> measure2 t = Some (Num 1)) out)
   \<and> post example_env [] [(''emoji'', JStr [0x1F600])] = (Inr (), [smile_doc])"
proof -
  let ?s = "[smile_doc, party_doc]"
  obtain cmb where c: "combined example_env ?s (doc_emoji smile_doc) default_options = Inr cmb"
    by (simp add: default_combined)
  then have "map_sum id (map emoji) (Inr cmb :: error + entry list)
      = Inr [[0x1F600], [0x1F600, 0x1F389]]"
    unfolding c [symmetric]
    by (simp add: search_defs smile_doc_def party_doc_def example_env_def)
  then have "length cmb = 2" by auto
  moreover have "length (filtered default_options cmb) \<le> length cmb"
    unfolding filtered_def by (metis length_filter_le order_trans)
  ultimately have len: "length (filtered default_options cmb) \<le> 50" by simp
  have h: "smile_doc \<in> set ?s \<and> \<not> isAscii (doc_emoji smile_doc)"
    by (simp add: smile_doc_def isAscii_def)
  from exact_query_finds_document [of smile_doc ?s example_env cmb, THEN conjunct1] h c len
  have "\<exists>out. search example_env ?s (doc_emoji smile_doc) default_options = Inr out
         \<and> (\<exists>t \<in> set out. emoji t = doc_emoji smile_doc \<and> meta t = doc_meta smile_doc
                \<and> measure2 t = Some (Num 1))"
    by blast
  then have a: "\<exists>out. search example_env ?s [0x1F600] default_options = Inr out
      \<and> list_ex (\<lambda>t. emoji t = [0x1F600] \<and> meta t = None \<and> measure2 t = Some (Num 1)) out"
    by (simp add: list_ex_iff smile_doc_def)
  have p: "post example_env [] [(''emoji'', JStr [0x1F600])] = (Inr (), [smile_doc])"
    by (simp add: post_def documentPostValidate_def prop_ok_def required_ok_def
        convertEmojiToKeywords_def smile_doc_def example_env_def)
  from a p show ?thesis by simp
qed

lemma replicate_numeral_unfold: "replicate (numeral k) x = x # replicate (pred_numeral k) x"
  by (simp add: numeral_eq_Suc)

text \<open>
  The claim as written fails: with 51 perfect matches the default limit of 50 cuts the
  document inserted first, the only one with that very sequence; and a document whose
  sequence is ASCII is not found at all.
\<close>

theorem limit_cuts_exact_match:
  "map_sum id (map emoji) (search example_env crowded_db [0x1F600] default_options)
     = Inr (replicate 50 [0x1F600, 0x1F389])
   \<and> search example_env [ascii_doc] [97, 98, 99] default_options = Inr []"
  by (simp add: search_defs smile_doc_def party_doc_def ascii_doc_def example_env_def
      crowded_db_def replicate_numeral_unfold)

end
